theory Spec2Isabelle
  imports Complex_Main
begin

section \<open>The industrial simulator of script.js\<close>

text \<open>
  The class \<open>IndustrialSimulator\<close> of \<open>src/script.js\<close> is embedded as a record of its
  fields and one function per method, the method's receiver passed in and returned.

  \<^item> The robot's angles and \<open>config.rotation\<close> are JavaScript numbers in full, a
    finite double, an infinity or NaN, and \<open>updateRobot\<close> rounds every operation.
    The other numbers (the rest of the configuration, the vectors of the libraries,
    the times, the random draws) are taken finite and read as real numbers. Rounding
    to a double is written out where the program decides by the rounded value: in
    \<open>Math.floor(r * 30 + 70)\<close> and in the speeds and lengths of \<open>updateVectors\<close>;
    elsewhere arithmetic on them is exact.
  \<^item> Objects of the two libraries (bodies, meshes, arrows) live in stores indexed by
    handles; a handle is fresh when \<open>new\<close> allocates it. The simulator's own lists
    hold handles, as the JavaScript arrays hold references.
  \<^item> A method that ends by an uncaught exception returns \<open>Inl (e, s)\<close>, where \<open>s\<close>
    holds the assignments made before the throw; a method that completes returns
    \<open>Inr s\<close>.
  \<^item> \<open>Math.random()\<close>, the wall clock and the event objects are inputs: each
    function takes the draws it makes as arguments, in the order the source makes them.
  \<^item> The text written to the console and to the page's elements is not part of the
    simulator record; the constructor's dependency check, which is about exactly those
    effects, returns them as a trace.
  \<^item> What the libraries compute (the physics step, an impulse, a ray cast, the
    normalisation of a vector, the material of a fresh body) is a parameter, the
    record \<open>Lib\<close>: theorems hold for every library.
\<close>

subsection \<open>Rounding to a double\<close>

text \<open>
  A JavaScript number is an IEEE 754 double, and every arithmetic operation returns the
  double nearest to the exact result, a tie going to the one whose last bit is zero.
  \<open>toDouble\<close> is that rounding for results below \<open>2 ^ 1024\<close> in absolute value: the
  doubles around \<open>x\<close> are the multiples of \<open>2 powi quantum x\<close>, where \<open>quantum x\<close> is \<open>52\<close>
  below the binary exponent of \<open>x\<close>, and not below \<open>- 1074\<close>. \<open>roundEven\<close> rounds to the
  nearest integer, a tie to the even one.
\<close>

definition roundEven :: "real \<Rightarrow> int" where
  "roundEven t =
     (if t - of_int \<lfloor>t\<rfloor> < 1 / 2 then \<lfloor>t\<rfloor>
      else if t - of_int \<lfloor>t\<rfloor> > 1 / 2 then \<lfloor>t\<rfloor> + 1
      else if even \<lfloor>t\<rfloor> then \<lfloor>t\<rfloor> else \<lfloor>t\<rfloor> + 1)"

definition quantum :: "real \<Rightarrow> int" where
  "quantum x = (if x = 0 then - 1074 else max (\<lfloor>log 2 \<bar>x\<bar>\<rfloor> - 52) (- 1074))"

definition toDouble :: "real \<Rightarrow> real" where
  "toDouble x = of_int (roundEven (x / 2 powi quantum x)) * 2 powi quantum x"

text \<open>The doubles are the numbers that rounding leaves as they are.\<close>

definition isDouble :: "real \<Rightarrow> bool" where
  "isDouble a \<longleftrightarrow> toDouble a = a"

subsection \<open>JavaScript numbers\<close>

text \<open>
  A JavaScript number is a finite double, one of the two infinities, or NaN. The sign
  of a zero is not kept: \<open>updateRobot\<close>, which computes with these numbers, divides by
  \<open>180\<close> and by \<open>Math.PI\<close> only, and nothing else in the program tells \<open>-0\<close> from \<open>0\<close>
  (a zero divisor is read as \<open>+0\<close>). The number \<open>0\<close> is \<open>Finite 0\<close>.
\<close>

datatype number = Finite real | PosInf | NegInf | NaN

instantiation number :: zero
begin

definition zero_number :: number where
  "zero_number = Finite 0"

instance ..

end

text \<open>
  The result of an operation whose exact value is \<open>x\<close>: the nearest double, or an
  infinity when that rounding reaches \<open>2 ^ 1024\<close>.
\<close>

definition fl :: "real \<Rightarrow> number" where
  "fl x =
     (if 2 ^ 1024 \<le> toDouble x then PosInf
      else if toDouble x \<le> - (2 ^ 1024) then NegInf
      else Finite (toDouble x))"

text \<open>The finite doubles.\<close>

definition finiteDouble :: "real \<Rightarrow> bool" where
  "finiteDouble a \<longleftrightarrow> isDouble a \<and> \<bar>a\<bar> < 2 ^ 1024"

text \<open>\<open>x + y\<close>, \<open>x - y\<close>, \<open>x * y\<close> and \<open>x / y\<close> on numbers.\<close>

fun nneg :: "number \<Rightarrow> number" where
  "nneg (Finite a) = Finite (- a)"
| "nneg PosInf = NegInf"
| "nneg NegInf = PosInf"
| "nneg NaN = NaN"

fun nadd :: "number \<Rightarrow> number \<Rightarrow> number" where
  "nadd (Finite a) (Finite b) = fl (a + b)"
| "nadd NaN y = NaN"
| "nadd x NaN = NaN"
| "nadd PosInf NegInf = NaN"
| "nadd NegInf PosInf = NaN"
| "nadd PosInf y = PosInf"
| "nadd NegInf y = NegInf"
| "nadd x PosInf = PosInf"
| "nadd x NegInf = NegInf"

definition nsub :: "number \<Rightarrow> number \<Rightarrow> number" where
  "nsub x y = nadd x (nneg y)"

fun nmul :: "number \<Rightarrow> number \<Rightarrow> number" where
  "nmul (Finite a) (Finite b) = fl (a * b)"
| "nmul NaN y = NaN"
| "nmul x NaN = NaN"
| "nmul (Finite a) PosInf = (if a = 0 then NaN else if 0 < a then PosInf else NegInf)"
| "nmul (Finite a) NegInf = (if a = 0 then NaN else if 0 < a then NegInf else PosInf)"
| "nmul PosInf (Finite b) = (if b = 0 then NaN else if 0 < b then PosInf else NegInf)"
| "nmul NegInf (Finite b) = (if b = 0 then NaN else if 0 < b then NegInf else PosInf)"
| "nmul PosInf PosInf = PosInf"
| "nmul NegInf NegInf = PosInf"
| "nmul PosInf NegInf = NegInf"
| "nmul NegInf PosInf = NegInf"

fun ndiv :: "number \<Rightarrow> number \<Rightarrow> number" where
  "ndiv (Finite a) (Finite b) =
     (if b = 0 then (if a = 0 then NaN else if 0 < a then PosInf else NegInf)
      else fl (a / b))"
| "ndiv NaN y = NaN"
| "ndiv x NaN = NaN"
| "ndiv (Finite a) y = Finite 0"
| "ndiv PosInf (Finite b) = (if 0 \<le> b then PosInf else NegInf)"
| "ndiv NegInf (Finite b) = (if 0 \<le> b then NegInf else PosInf)"
| "ndiv x y = NaN"

text \<open>\<open>Math.PI\<close>, the double nearest to \<open>pi\<close>.\<close>

definition MathPI :: number where
  "MathPI = Finite (toDouble pi)"

text \<open>
  \<open>c + (t - c) * 0.05\<close> on finite doubles, as long as no operation overflows: the
  difference, its product with the double nearest to \<open>0.05\<close>, and the sum are rounded
  one after the other.
\<close>

definition blend :: "real \<Rightarrow> real \<Rightarrow> real" where
  "blend c t = toDouble (c + toDouble (toDouble (t - c) * toDouble 0.05))"

subsection \<open>Data\<close>

type_synonym ref = nat

datatype vec3 = Vec3 (vx: real) (vy: real) (vz: real)

datatype quat = Quat (qx: real) (qy: real) (qz: real) (qw: real)

datatype error = TypeError

text \<open>
  \<open>this.config\<close>, lines 24-32. The sliders assign \<open>parseFloat(e.target.value)\<close>;
  \<open>rotation\<close>, which \<open>updateRobot\<close> computes with, is kept as a JavaScript number in
  full.
\<close>

record Config =
  gravity :: real
  restitution :: real
  friction :: real
  mass :: real
  impulse :: real
  angularVelocity :: real
  rotation :: number

text \<open>
  \<open>THREE.Group\<close> of the robot: the one property the simulator writes after set-up is
  \<open>rotation.y\<close>.
\<close>

record Group =
  rotationY :: number

text \<open>\<open>this.robot\<close>, lines 35-41. \<open>base\<close> is \<open>null\<close> until \<open>setupRobot\<close> has run.\<close>

record Robot =
  base :: "Group option"
  segments :: "ref list"
  targetAngle :: number
  currentAngle :: number
  isActive :: bool

text \<open>
  A statistics field that is shown on the page holds the number \<open>0\<close> at first and later
  the string that \<open>toFixed\<close> returns; the string is kept as the number formatted and its
  count of decimals, since the program never reads its characters.
\<close>

datatype shown = Number real | ToFixed number nat

text \<open>\<open>this.stats\<close>, lines 44-54.\<close>

record Stats =
  activeObjects :: nat
  collisionCount :: nat
  totalEnergy :: shown
  maxVelocity :: shown
  avgVelocity :: shown
  currentAngle :: shown
  angularAcceleration :: real
  damageReduction :: int
  trajectoryEfficiency :: int

text \<open>\<open>body.material\<close> of a \<open>CANNON.Body\<close>.\<close>

record Material =
  friction :: real
  restitution :: real

datatype shape =
    Box vec3
  | Sphere real
  | Cylinder real real real nat

text \<open>The properties of a \<open>CANNON.Body\<close> that script.js reads or writes.\<close>

record Body =
  mass :: real
  position :: vec3
  velocity :: vec3
  quaternion :: quat
  material :: "Material option"

datatype geometry =
    BoxGeometry real real real
  | SphereGeometry real nat nat
  | CylinderGeometry real real real nat

text \<open>The properties of a \<open>THREE.Mesh\<close> that script.js reads or writes.\<close>

record Mesh =
  position :: vec3
  quaternion :: quat
  castShadow :: bool
  receiveShadow :: bool

text \<open>The arguments a \<open>THREE.ArrowHelper\<close> was built from.\<close>

record Arrow =
  dir :: vec3
  origin :: vec3
  arrowLength :: real
  hex :: nat

text \<open>
  Modelled from the spec: \<open>CANNON.World\<close> is not under src/; it is "the collection of
  rigid bodies and their collision shapes maintained by the physics library", here the
  handles of the bodies added and not removed, and the gravity vector script.js sets.
\<close>

record World =
  gravity :: vec3
  bodies :: "ref list"

text \<open>An entry of \<open>this.objects\<close>: \<open>{ body, mesh, type, mass }\<close>.\<close>

record SimObject =
  body :: ref
  mesh :: ref
  type :: string
  mass :: real

text \<open>An entry of \<open>this.vectors\<close>: \<open>{ arrow, type }\<close>.\<close>

record Vector =
  arrow :: "ref option"
  type :: string

text \<open>
  Modelled from the spec: \<open>THREE.Scene\<close> is not under src/; it is "the collection of
  renderable objects and lights maintained by the rendering library", here the list of
  the handles added and not removed.
\<close>

type_synonym Scene = "ref list"

text \<open>
  The fields of the simulator (constructor, lines 12-58) and the stores of the library
  objects it holds handles to. \<open>scene\<close> and \<open>world\<close> are \<open>null\<close> until set-up has run. The
  renderer, the camera and the canvas are only handed to library calls and are left to
  the library.
\<close>

record Simulator =
  scene :: "Scene option"
  world :: "World option"
  objects :: "SimObject list"
  vectors :: "Vector list"
  isRunning :: bool
  deltaTime :: real
  simulationTime :: real
  frameCount :: nat
  config :: Config
  robot :: Robot
  stats :: Stats
  showVelocityVectors :: bool
  showMomentumVectors :: bool
  bodyStore :: "ref \<Rightarrow> Body"
  meshStore :: "ref \<Rightarrow> Mesh"
  arrowStore :: "ref \<Rightarrow> Arrow"
  nextRef :: ref

type_synonym outcome = "(error \<times> Simulator) + Simulator"

text \<open>Sequencing: an exception ends the method.\<close>

definition andThen :: "outcome \<Rightarrow> (Simulator \<Rightarrow> outcome) \<Rightarrow> outcome" where
  "andThen r f = (case r of Inl e \<Rightarrow> Inl e | Inr s \<Rightarrow> f s)"

subsection \<open>Control methods\<close>

text \<open>The statistics literal of the constructor and of \<open>reset\<close>.\<close>

definition zeroStats :: Stats where
  "zeroStats = \<lparr> activeObjects = 0, collisionCount = 0, totalEnergy = Number 0,
     maxVelocity = Number 0, avgVelocity = Number 0, currentAngle = Number 0,
     angularAcceleration = 0, damageReduction = 0, trajectoryEfficiency = 0 \<rparr>"

text \<open>\<open>play\<close> and \<open>pause\<close>, lines 633-641.\<close>

definition play :: "Simulator \<Rightarrow> Simulator" where
  "play s = s\<lparr>isRunning := True\<rparr>"

definition pause :: "Simulator \<Rightarrow> Simulator" where
  "pause s = s\<lparr>isRunning := False\<rparr>"

text \<open>\<open>resetRobot\<close>, lines 696-707; the button's text and classes are page state.\<close>

definition resetRobot :: "Simulator \<Rightarrow> Simulator" where
  "resetRobot s = s\<lparr>robot := (robot s)\<lparr>Robot.currentAngle := 0, targetAngle := 0,
     isActive := False\<rparr>\<rparr>"

text \<open>\<open>toggleRobot\<close>, lines 686-694.\<close>

definition toggleRobot :: "Simulator \<Rightarrow> Simulator" where
  "toggleRobot s = s\<lparr>robot := (robot s)\<lparr>isActive := \<not> isActive (robot s)\<rparr>\<rparr>"

text \<open>
  \<open>optimizeLayout\<close> and \<open>optimizeTrajectory\<close>, lines 709-719: \<open>r\<close> is the value of
  \<open>Math.random()\<close>, and \<open>Math.floor(r * 30 + 70)\<close> rounds the product and then the sum
  to a double before taking the floor, which is exact. \<open>updateAnalysisDisplay\<close> writes
  page text only.
\<close>

definition optimizeLayout :: "real \<Rightarrow> Simulator \<Rightarrow> Simulator" where
  "optimizeLayout r s =
     s\<lparr>stats := (stats s)\<lparr>damageReduction := \<lfloor>toDouble (toDouble (r * 30) + 70)\<rfloor>\<rparr>\<rparr>"

definition optimizeTrajectory :: "real \<Rightarrow> Simulator \<Rightarrow> Simulator" where
  "optimizeTrajectory r s =
     s\<lparr>stats := (stats s)\<lparr>trajectoryEfficiency := \<lfloor>toDouble (toDouble (r * 30) + 70)\<rfloor>\<rparr>\<rparr>"

subsection \<open>The libraries\<close>

text \<open>
  What script.js asks of Cannon.js and Three.js and does not compute itself:
  \<^item> \<open>newBody m\<close>: the body \<open>new CANNON.Body({ mass: m })\<close> returns; its \<open>material\<close> is
    \<open>None\<close> when the library leaves the property \<open>null\<close>;
  \<^item> \<open>addShape\<close>, \<open>applyImpulse impulse worldPoint\<close>: the methods of a body;
  \<^item> \<open>worldStep dt\<close>: \<open>world.step(dt)\<close>, on the world and the store of bodies;
  \<^item> \<open>newMesh g hsl\<close>: the mesh built from geometry \<open>g\<close> and a Lambert material of the
    colour \<open>setHSL\<close> gives;
  \<^item> \<open>normalize\<close>: \<open>Vector3.normalize\<close>;
  \<^item> \<open>intersectObjects mouse meshes store\<close>: the meshes a ray from the camera through
    \<open>mouse\<close> hits, nearest first (\<open>Raycaster.setFromCamera\<close>, \<open>intersectObjects\<close> and the
    \<open>object\<close> of each intersection).
\<close>

record Lib =
  newBody :: "real \<Rightarrow> Body"
  addShape :: "shape \<Rightarrow> Body \<Rightarrow> Body"
  applyImpulse :: "vec3 \<Rightarrow> vec3 \<Rightarrow> Body \<Rightarrow> Body"
  worldStep :: "real \<Rightarrow> World \<times> (ref \<Rightarrow> Body) \<Rightarrow> World \<times> (ref \<Rightarrow> Body)"
  newMesh :: "geometry \<Rightarrow> real \<times> real \<times> real \<Rightarrow> Mesh"
  normalize :: "vec3 \<Rightarrow> vec3"
  intersectObjects :: "real \<times> real \<Rightarrow> ref list \<Rightarrow> (ref \<Rightarrow> Mesh) \<Rightarrow> ref list"

text \<open>\<open>Array.prototype.forEach\<close> with a callback that may throw.\<close>

fun forEach :: "('a \<Rightarrow> Simulator \<Rightarrow> outcome) \<Rightarrow> 'a list \<Rightarrow> Simulator \<Rightarrow> outcome" where
  "forEach f [] s = Inr s"
| "forEach f (x # xs) s = andThen (f x s) (forEach f xs)"

subsection \<open>Reset\<close>

text \<open>The callback of lines 648-651: \<open>scene.remove(obj.mesh); world.remove(obj.body)\<close>.\<close>

definition removeObject :: "SimObject \<Rightarrow> Simulator \<Rightarrow> outcome" where
  "removeObject obj s =
     (case scene s of
        None \<Rightarrow> Inl (TypeError, s)
      | Some children \<Rightarrow>
          (let s1 = s\<lparr>scene := Some (removeAll (mesh obj) children)\<rparr>
           in case world s1 of
                None \<Rightarrow> Inl (TypeError, s1)
              | Some w \<Rightarrow> Inr (s1\<lparr>world := Some (w\<lparr>bodies := removeAll (body obj) (bodies w)\<rparr>)\<rparr>)))"

text \<open>The callback of lines 655-659 and 497-501: \<open>if (vector.arrow) scene.remove(vector.arrow)\<close>.\<close>

definition removeVector :: "Vector \<Rightarrow> Simulator \<Rightarrow> outcome" where
  "removeVector vector s =
     (case arrow vector of
        None \<Rightarrow> Inr s
      | Some a \<Rightarrow>
          (case scene s of
             None \<Rightarrow> Inl (TypeError, s)
           | Some children \<Rightarrow> Inr (s\<lparr>scene := Some (removeAll a children)\<rparr>)))"

text \<open>\<open>reset\<close>, lines 643-677.\<close>

definition reset :: "Simulator \<Rightarrow> outcome" where
  "reset s =
     (let s1 = (pause s)\<lparr>simulationTime := 0\<rparr>
      in andThen (forEach removeObject (objects s1) s1) (\<lambda>s2.
         let s3 = s2\<lparr>objects := []\<rparr>
         in andThen (forEach removeVector (vectors s3) s3) (\<lambda>s4.
            Inr (resetRobot (s4\<lparr>vectors := [], stats := zeroStats\<rparr>)))))"

subsection \<open>Keyboard\<close>

text \<open>The two properties of a keyboard event that \<open>onKeyPress\<close> reads.\<close>

record KeyEvent =
  code :: string
  ctrlKey :: bool

text \<open>
  \<open>onKeyPress\<close>, lines 768-797; \<open>r\<close> is the draw an optimisation would make.
\<close>

definition onKeyPress :: "KeyEvent \<Rightarrow> real \<Rightarrow> Simulator \<Rightarrow> outcome" where
  "onKeyPress event r s =
     (if code event = ''Space'' then
        (if isRunning s then Inr (pause s) else Inr (play s))
      else if code event = ''KeyR'' then
        (if ctrlKey event then reset s else Inr s)
      else if code event = ''KeyO'' then
        (if ctrlKey event then Inr (optimizeLayout r s) else Inr s)
      else if code event = ''KeyT'' then
        (if ctrlKey event then Inr (optimizeTrajectory r s) else Inr s)
      else Inr s)"

subsection \<open>The robot\<close>

text \<open>
  \<open>updateRobot\<close>, lines 478-493, in the arithmetic of JavaScript numbers: the slider's
  value \<open>config.rotation\<close> may be any number (\<open>parseFloat\<close> returns NaN for an emptied
  box), the product with \<open>Math.PI\<close> may overflow, and every operation rounds. The angles
  are assigned before \<open>this.robot.base.rotation\<close> is read, so they are kept when \<open>base\<close>
  is \<open>null\<close>.
\<close>

definition updateRobot :: "Simulator \<Rightarrow> outcome" where
  "updateRobot s =
     (if \<not> isActive (robot s) then Inr s
      else
        (let r1 = (robot s)\<lparr>targetAngle :=
               ndiv (nmul (rotation (config s)) MathPI) (Finite 180)\<rparr>;
             angleDiff = nsub (targetAngle r1) (Robot.currentAngle r1);
             r2 = r1\<lparr>Robot.currentAngle :=
               nadd (Robot.currentAngle r1) (nmul angleDiff (Finite (toDouble 0.05)))\<rparr>
         in case base r2 of
              None \<Rightarrow> Inl (TypeError, s\<lparr>robot := r2\<rparr>)
            | Some g \<Rightarrow>
                Inr (s\<lparr>robot := r2\<lparr>base := Some (g\<lparr>rotationY := Robot.currentAngle r2\<rparr>)\<rparr>,
                        stats := (stats s)\<lparr>Stats.currentAngle :=
                          ToFixed (ndiv (nmul (Robot.currentAngle r2) (Finite 180)) MathPI) 1\<rparr>\<rparr>)))"

text \<open>Successive calls of \<open>updateRobot\<close>, stopping at an exception.\<close>

fun updateRobotTimes :: "nat \<Rightarrow> Simulator \<Rightarrow> outcome" where
  "updateRobotTimes 0 s = Inr s"
| "updateRobotTimes (Suc n) s = andThen (updateRobot s) (updateRobotTimes n)"

subsection \<open>The physics step\<close>

text \<open>
  The callback of lines 469-472:
  \<open>obj.mesh.position.copy(obj.body.position); obj.mesh.quaternion.copy(obj.body.quaternion)\<close>.
\<close>

definition copyTransform :: "SimObject \<Rightarrow> Simulator \<Rightarrow> Simulator" where
  "copyTransform obj s =
     s\<lparr>meshStore := (meshStore s)(mesh obj := (meshStore s (mesh obj))\<lparr>
          Mesh.position := Body.position (bodyStore s (body obj)),
          Mesh.quaternion := Body.quaternion (bodyStore s (body obj))\<rparr>)\<rparr>"

text \<open>\<open>this.world.step(dt)\<close> on a world that is not \<open>null\<close>.\<close>

definition stepWorld :: "Lib \<Rightarrow> real \<Rightarrow> World \<Rightarrow> Simulator \<Rightarrow> Simulator" where
  "stepWorld L dt w s =
     (case worldStep L dt (w, bodyStore s) of
        (w', store') \<Rightarrow> s\<lparr>world := Some w', bodyStore := store'\<rparr>)"

text \<open>\<open>updatePhysics\<close>, lines 462-476.\<close>

definition updatePhysics :: "Lib \<Rightarrow> Simulator \<Rightarrow> outcome" where
  "updatePhysics L s =
     (case world s of
        None \<Rightarrow> Inr s
      | Some w \<Rightarrow>
          (let s1 = stepWorld L (deltaTime s) w s;
               s2 = fold copyTransform (objects s1) s1
           in updateRobot s2))"

text \<open>\<open>step\<close>, lines 679-684.\<close>

definition step :: "Lib \<Rightarrow> Simulator \<Rightarrow> outcome" where
  "step L s =
     (if \<not> isRunning s then
        andThen (updatePhysics L s) (\<lambda>s1.
          Inr (s1\<lparr>simulationTime := simulationTime s1 + deltaTime s1\<rparr>))
      else Inr s)"

subsection \<open>Vector arrows\<close>

text \<open>
  \<open>Math.sqrt(v.x * v.x + v.y * v.y + v.z * v.z)\<close> in double arithmetic: the three
  products, the two sums from left to right and the square root are each rounded.
\<close>

definition magnitude :: "vec3 \<Rightarrow> real" where
  "magnitude v =
     toDouble (sqrt (toDouble (toDouble (toDouble (vx v * vx v) + toDouble (vy v * vy v)) +
       toDouble (vz v * vz v))))"

text \<open>
  \<open>const arrow = new THREE.ArrowHelper(...); this.scene.add(arrow);
  this.vectors.push({ arrow, type })\<close>: the arrow exists before \<open>this.scene\<close> is read.
\<close>

definition pushArrow :: "Arrow \<Rightarrow> string \<Rightarrow> Simulator \<Rightarrow> outcome" where
  "pushArrow a ty s =
     (let r = nextRef s;
          s1 = s\<lparr>arrowStore := (arrowStore s)(r := a), nextRef := Suc r\<rparr>
      in case scene s1 of
           None \<Rightarrow> Inl (TypeError, s1)
         | Some children \<Rightarrow>
             Inr (s1\<lparr>scene := Some (children @ [r]),
                     vectors := vectors s1 @ [\<lparr>arrow = Some r, type = ty\<rparr>]\<rparr>))"

text \<open>
  The callback of lines 505-548. The speed is compared with the double nearest to
  \<open>0.1\<close>; the lengths of the arrows and the components of the momentum are rounded
  products. The colours \<open>0x00ffd1\<close> and \<open>0xffaa00\<close> are \<open>65489\<close> and \<open>16755200\<close>.
\<close>

definition objectVectors :: "Lib \<Rightarrow> SimObject \<Rightarrow> Simulator \<Rightarrow> outcome" where
  "objectVectors L obj s =
     (let position = Body.position (bodyStore s (body obj));
          velocity = Body.velocity (bodyStore s (body obj));
          speed = magnitude velocity
      in if speed > toDouble 0.1 then
           andThen
             (if showVelocityVectors s then
                pushArrow \<lparr>dir = normalize L (Vec3 (vx velocity) (vy velocity) (vz velocity)),
                  origin = Vec3 (vx position) (vy position) (vz position),
                  arrowLength = toDouble (speed * 0.5), hex = 65489\<rparr> ''velocity'' s
              else Inr s)
             (\<lambda>s1.
                if showMomentumVectors s1 then
                  (let momentum = Vec3 (toDouble (vx velocity * SimObject.mass obj))
                         (toDouble (vy velocity * SimObject.mass obj))
                         (toDouble (vz velocity * SimObject.mass obj));
                       momentumMag = magnitude momentum
                   in pushArrow \<lparr>dir = normalize L (Vec3 (vx momentum) (vy momentum) (vz momentum)),
                        origin = Vec3 (vx position) (vy position) (vz position),
                        arrowLength = toDouble (momentumMag * toDouble 0.02),
                        hex = 16755200\<rparr> ''momentum'' s1)
                else Inr s1)
         else Inr s)"

text \<open>\<open>updateVectors\<close>, lines 495-549.\<close>

definition updateVectors :: "Lib \<Rightarrow> Simulator \<Rightarrow> outcome" where
  "updateVectors L s =
     andThen (forEach removeVector (vectors s) s) (\<lambda>s1.
       forEach (objectVectors L) (objects s1) (s1\<lparr>vectors := []\<rparr>))"



subsection \<open>Statistics and the frame callback\<close>




subsection \<open>Spawning objects\<close>

text \<open>
  Lines 349-378 of \<open>addBox\<close>, which \<open>addSphere\<close> (389-418) and \<open>addCylinder\<close> (430-459)
  repeat word for word with their own shape, geometry and type tag. The draws are
  \<open>hue\<close> for the colour, \<open>px\<close>, \<open>py\<close>, \<open>pz\<close> for the position and \<open>ix\<close>, \<open>iz\<close> for the
  impulse. \<open>body.material.friction = ...\<close> throws when the library left \<open>material\<close>
  \<open>null\<close>.
\<close>

definition addObject ::
  "Lib \<Rightarrow> shape \<Rightarrow> geometry \<Rightarrow> string \<Rightarrow> real \<Rightarrow> real \<Rightarrow> real \<Rightarrow> real \<Rightarrow> real \<Rightarrow> real \<Rightarrow>
     Simulator \<Rightarrow> outcome" where
  "addObject L shape geom ty hue px py pz ix iz s =
     (let b0 = addShape L shape (newBody L (Config.mass (config s)));
          b1 = b0\<lparr>Body.position := Vec3 ((px - 0.5) * 15) (8 + py * 5) ((pz - 0.5) * 15)\<rparr>
      in case material b1 of
           None \<Rightarrow> Inl (TypeError, s)
         | Some m \<Rightarrow>
            (let b2 = b1\<lparr>material := Some (m\<lparr>Material.friction := Config.friction (config s),
                        Material.restitution := Config.restitution (config s)\<rparr>)\<rparr>;
                 rb = nextRef s;
                 s1 = s\<lparr>bodyStore := (bodyStore s)(rb := b2), nextRef := Suc rb\<rparr>
             in case world s1 of
                  None \<Rightarrow> Inl (TypeError, s1)
                | Some w \<Rightarrow>
                   (let s2 = s1\<lparr>world := Some (w\<lparr>bodies := bodies w @ [rb]\<rparr>)\<rparr>;
                        m1 = (newMesh L geom (hue, 0.7, 0.6))\<lparr>castShadow := True,
                               receiveShadow := True\<rparr>;
                        rm = nextRef s2;
                        s3 = s2\<lparr>meshStore := (meshStore s2)(rm := m1), nextRef := Suc rm\<rparr>
                    in case scene s3 of
                         None \<Rightarrow> Inl (TypeError, s3)
                       | Some children \<Rightarrow>
                          (let s4 = s3\<lparr>scene := Some (children @ [rm])\<rparr>;
                               obj = \<lparr>body = rb, mesh = rm, type = ty,
                                      mass = Config.mass (config s4)\<rparr>;
                               s5 = s4\<lparr>objects := objects s4 @ [obj],
                                      stats := (stats s4)\<lparr>activeObjects :=
                                        activeObjects (stats s4) + 1\<rparr>\<rparr>;
                               impulse = Vec3 ((ix - 0.5) * 5) 2 ((iz - 0.5) * 5);
                               b = bodyStore s5 rb
                           in Inr (s5\<lparr>bodyStore := (bodyStore s5)(rb :=
                                     applyImpulse L impulse (Body.position b) b)\<rparr>)))))"

text \<open>\<open>addBox\<close>, lines 341-379; the first draw is the size.\<close>

definition addBox ::
  "Lib \<Rightarrow> real \<Rightarrow> real \<Rightarrow> real \<Rightarrow> real \<Rightarrow> real \<Rightarrow> real \<Rightarrow> real \<Rightarrow> Simulator \<Rightarrow> outcome" where
  "addBox L rsize hue px py pz ix iz s =
     (let size = 1 + rsize * 2
      in addObject L (Box (Vec3 (size / 2) (size / 2) (size / 2))) (BoxGeometry size size size)
           ''box'' hue px py pz ix iz s)"

text \<open>\<open>addSphere\<close>, lines 381-419; the first draw is the radius.\<close>

definition addSphere ::
  "Lib \<Rightarrow> real \<Rightarrow> real \<Rightarrow> real \<Rightarrow> real \<Rightarrow> real \<Rightarrow> real \<Rightarrow> real \<Rightarrow> Simulator \<Rightarrow> outcome" where
  "addSphere L rradius hue px py pz ix iz s =
     (let radius = 0.5 + rradius * 1
      in addObject L (Sphere radius) (SphereGeometry radius 16 12)
           ''sphere'' hue px py pz ix iz s)"

text \<open>\<open>addCylinder\<close>, lines 421-460; the first two draws are the radius and the height.\<close>

definition addCylinder ::
  "Lib \<Rightarrow> real \<Rightarrow> real \<Rightarrow> real \<Rightarrow> real \<Rightarrow> real \<Rightarrow> real \<Rightarrow> real \<Rightarrow> real \<Rightarrow> Simulator \<Rightarrow> outcome" where
  "addCylinder L rradius rheight hue px py pz ix iz s =
     (let radius = 0.3 + rradius * 0.8;
          height = 1 + rheight * 2
      in addObject L (Cylinder radius radius height 8) (CylinderGeometry radius radius height 16)
           ''cylinder'' hue px py pz ix iz s)"

text \<open>A click on one of the three buttons, with the draws the handler makes.\<close>

datatype spawn =
    AddBox real real real real real real real
  | AddSphere real real real real real real real
  | AddCylinder real real real real real real real real

fun spawnOne :: "Lib \<Rightarrow> spawn \<Rightarrow> Simulator \<Rightarrow> outcome" where
  "spawnOne L (AddBox a hue px py pz ix iz) s = addBox L a hue px py pz ix iz s"
| "spawnOne L (AddSphere a hue px py pz ix iz) s = addSphere L a hue px py pz ix iz s"
| "spawnOne L (AddCylinder a b hue px py pz ix iz) s = addCylinder L a b hue px py pz ix iz s"

text \<open>A sequence of clicks; an exception ends one handler, not the sequence of clicks.\<close>

fun spawnAll :: "Lib \<Rightarrow> spawn list \<Rightarrow> Simulator \<Rightarrow> Simulator" where
  "spawnAll L [] s = s"
| "spawnAll L (c # cs) s =
     spawnAll L cs (case spawnOne L c s of Inl (e, s') \<Rightarrow> s' | Inr s' \<Rightarrow> s')"

subsection \<open>Clicking the canvas\<close>

text \<open>What \<open>onCanvasClick\<close> reads of the mouse event and of the window.\<close>

record Click =
  clientX :: real
  clientY :: real
  innerWidth :: real
  innerHeight :: real

text \<open>
  \<open>onCanvasClick\<close>, lines 738-766; \<open>rx\<close> and \<open>rz\<close> are the two draws of the impulse.
  \<open>find\<close> is \<open>Array.prototype.find\<close>.
\<close>

definition onCanvasClick :: "Lib \<Rightarrow> Click \<Rightarrow> real \<Rightarrow> real \<Rightarrow> Simulator \<Rightarrow> outcome" where
  "onCanvasClick L event rx rz s =
     (if \<not> isRunning s then Inr s
      else
        (let mouse = ((clientX event / innerWidth event) * 2 - 1,
                      - (clientY event / innerHeight event) * 2 + 1);
             meshes = map mesh (objects s);
             intersects = intersectObjects L mouse meshes (meshStore s)
         in if length intersects > 0 then
              (case find (\<lambda>obj. mesh obj = hd intersects) (objects s) of
                 None \<Rightarrow> Inr s
               | Some clickedObject \<Rightarrow>
                   (let impulse = Vec3 ((rx - 0.5) * Config.impulse (config s))
                          (Config.impulse (config s)) ((rz - 0.5) * Config.impulse (config s));
                        b = bodyStore s (body clickedObject)
                    in Inr (s\<lparr>bodyStore := (bodyStore s)(body clickedObject :=
                              applyImpulse L impulse (Body.position b) b)\<rparr>)))
            else Inr s))"

subsection \<open>Construction\<close>

text \<open>
  What the constructor does outside the simulator record, in order: a console message,
  an alert dialog, showing the loading screen, a timer. The texts are those of the
  lines named.
\<close>

datatype effect =
    ConsoleError nat
  | Alert nat
  | ConsoleLog nat
  | ShowLoadingScreen
  | SetTimeout nat

text \<open>Whether the globals \<open>THREE\<close> and \<open>CANNON\<close> are defined.\<close>

record Globals =
  hasTHREE :: bool
  hasCANNON :: bool

text \<open>
  \<open>checkDependencies\<close>, lines 64-76: the value returned and the effects, each message
  named by its line.
\<close>

definition checkDependencies :: "Globals \<Rightarrow> bool \<times> effect list" where
  "checkDependencies g =
     (if \<not> hasTHREE g then (False, [ConsoleError 66, Alert 67])
      else if \<not> hasCANNON g then (False, [ConsoleError 71, Alert 72])
      else (True, []))"

text \<open>
  \<open>init\<close>, lines 78-98, up to the return of \<open>setTimeout\<close>: the set-up itself runs in the
  timer's callback a second later.
\<close>

definition init :: "effect list" where
  "init = [ConsoleLog 79, ShowLoadingScreen, SetTimeout 1000]"

text \<open>
  The fields the constructor assigns, lines 12-58; the stores are those of the page
  at that moment.
\<close>

definition newSimulator ::
  "(ref \<Rightarrow> Body) \<Rightarrow> (ref \<Rightarrow> Mesh) \<Rightarrow> (ref \<Rightarrow> Arrow) \<Rightarrow> ref \<Rightarrow> Simulator" where
  "newSimulator bs ms as n =
     \<lparr> scene = None, world = None, objects = [], vectors = [], isRunning = False,
       deltaTime = 1 / 60, simulationTime = 0, frameCount = 0,
       config = \<lparr> Config.gravity = - 9.8, Config.restitution = 0.6, Config.friction = 0.3,
                  Config.mass = 5, impulse = 10, angularVelocity = 2, rotation = Finite 45 \<rparr>,
       robot = \<lparr> base = None, segments = [], targetAngle = 0, Robot.currentAngle = 0,
                 isActive = False \<rparr>,
       stats = zeroStats,
       showVelocityVectors = True, showMomentumVectors = True,
       bodyStore = bs, meshStore = ms, arrowStore = as, nextRef = n \<rparr>"

text \<open>
  The constructor, lines 7-62: the value of \<open>checkDependencies\<close> is dropped, the fields
  are assigned, \<open>init\<close> is called.
\<close>

definition constructor ::
  "Globals \<Rightarrow> (ref \<Rightarrow> Body) \<Rightarrow> (ref \<Rightarrow> Mesh) \<Rightarrow> (ref \<Rightarrow> Arrow) \<Rightarrow> ref \<Rightarrow> Simulator \<times> effect list" where
  "constructor g bs ms as n =
     (let (ok, effects) = checkDependencies g;
          this = newSimulator bs ms as n
      in (this, effects @ init))"

subsection \<open>Sequences of user actions\<close>

text \<open>
  The three ways to start and stop the simulation: the play button, the pause button
  and the space key (with the state of the control key; \<open>onKeyPress\<close> does not read it
  for this key, nor does it draw a random number).
\<close>

datatype control = PressPlay | PressPause | PressSpace bool

fun runControl :: "control \<Rightarrow> Simulator \<Rightarrow> outcome" where
  "runControl PressPlay s = Inr (play s)"
| "runControl PressPause s = Inr (pause s)"
| "runControl (PressSpace ctrl) s = onKeyPress \<lparr>code = ''Space'', ctrlKey = ctrl\<rparr> 0 s"

subsection \<open>Reading the arrows of a state\<close>


text \<open>
  The velocity arrows that a display flag and the state of the objects determine:
  one for each object whose speed exceeds the double \<open>0.1\<close> when the flag is set, none
  otherwise. Likewise the momentum arrows.
\<close>

definition velocityArrow :: "Lib \<Rightarrow> (ref \<Rightarrow> Body) \<Rightarrow> SimObject \<Rightarrow> Arrow" where
  "velocityArrow L store obj =
     \<lparr>dir = normalize L (Body.velocity (store (body obj))),
      origin = Body.position (store (body obj)),
      arrowLength = toDouble (magnitude (Body.velocity (store (body obj))) * 0.5),
      hex = 65489\<rparr>"

definition momentumArrow :: "Lib \<Rightarrow> (ref \<Rightarrow> Body) \<Rightarrow> SimObject \<Rightarrow> Arrow" where
  "momentumArrow L store obj =
     (let v = Body.velocity (store (body obj));
          p = Vec3 (toDouble (vx v * SimObject.mass obj)) (toDouble (vy v * SimObject.mass obj))
                (toDouble (vz v * SimObject.mass obj))
      in \<lparr>dir = normalize L p, origin = Body.position (store (body obj)),
          arrowLength = toDouble (magnitude p * toDouble 0.02), hex = 16755200\<rparr>)"


subsection \<open>Predicates of the statements\<close>

text \<open>
  The library leaves the material of every fresh body \<open>null\<close>. Cannon.js does: the
  constructor of \<open>CANNON.Body\<close> assigns \<open>options.material || null\<close>, script.js passes
  \<open>{ mass }\<close> only, and \<open>addShape\<close> does not touch the property.
\<close>

definition withoutMaterial :: "Lib \<Rightarrow> bool" where
  "withoutMaterial L \<longleftrightarrow> (\<forall>m sh. material (addShape L sh (newBody L m)) = None)"

text \<open>A library that would give every fresh body a material object.\<close>

definition materialised :: "Lib \<Rightarrow> bool" where
  "materialised L \<longleftrightarrow> (\<forall>m sh. material (addShape L sh (newBody L m)) \<noteq> None)"

text \<open>The type tag of the object a click adds.\<close>

fun tagOf :: "spawn \<Rightarrow> string" where
  "tagOf (AddBox a hue px py pz ix iz) = ''box''"
| "tagOf (AddSphere a hue px py pz ix iz) = ''sphere''"
| "tagOf (AddCylinder a b hue px py pz ix iz) = ''cylinder''"

text \<open>
  Every entry of the objects list holds two handles allocated by one spawn since the
  handle \<open>lo\<close> was the next fresh one (the mesh right after the body), the body being in
  the world and the mesh in the scene; no handle occurs in two entries.
\<close>

definition paired :: "ref \<Rightarrow> Simulator \<Rightarrow> bool" where
  "paired lo s \<longleftrightarrow>
     (\<forall>obj\<in>set (objects s).
        lo \<le> body obj \<and> mesh obj = Suc (body obj) \<and> mesh obj < nextRef s \<and>
        (\<exists>w. world s = Some w \<and> body obj \<in> set (bodies w)) \<and>
        (\<exists>children. scene s = Some children \<and> mesh obj \<in> set children)) \<and>
     distinct (map body (objects s)) \<and> distinct (map mesh (objects s))"





subsection \<open>The physics step as the specification words it\<close>


subsection \<open>A sample library and sample states\<close>

text \<open>
  A small library to run the simulator on: bodies start at rest at the origin and
  carry a material, an impulse changes the velocity by \<open>impulse / mass\<close>, a step moves
  every body by \<open>dt\<close> times its velocity, and a ray hits every mesh.
\<close>

definition sampleLib :: Lib where
  "sampleLib =
     \<lparr> newBody = (\<lambda>m. \<lparr>Body.mass = m, Body.position = Vec3 0 0 0, velocity = Vec3 0 0 0,
          Body.quaternion = Quat 0 0 0 1,
          material = Some \<lparr>Material.friction = 0.3, Material.restitution = 0.3\<rparr>\<rparr>),
       addShape = (\<lambda>sh b. b),
       applyImpulse = (\<lambda>j p b. b\<lparr>velocity := Vec3 (vx (velocity b) + vx j / Body.mass b)
          (vy (velocity b) + vy j / Body.mass b) (vz (velocity b) + vz j / Body.mass b)\<rparr>),
       worldStep = (\<lambda>dt (w, store). (w, \<lambda>r. (store r)\<lparr>Body.position :=
          Vec3 (vx (Body.position (store r)) + dt * vx (velocity (store r)))
               (vy (Body.position (store r)) + dt * vy (velocity (store r)))
               (vz (Body.position (store r)) + dt * vz (velocity (store r)))\<rparr>)),
       newMesh = (\<lambda>g c. \<lparr>Mesh.position = Vec3 0 0 0, Mesh.quaternion = Quat 0 0 0 1,
          castShadow = False, receiveShadow = False\<rparr>),
       normalize = (\<lambda>v. v),
       intersectObjects = (\<lambda>mouse meshes store. meshes) \<rparr>"

text \<open>
  The same library with the bodies of Cannon.js: a fresh body has no material.
\<close>

definition cannonLib :: Lib where
  "cannonLib = sampleLib\<lparr>newBody := (\<lambda>m. (newBody sampleLib m)\<lparr>material := None\<rparr>)\<rparr>"

text \<open>
  The simulator after set-up: a scene of six handles (lights, ground, grid, robot), a
  world holding the ground body, the robot's group; the next fresh handle is \<open>10\<close>.
\<close>

definition sampleReady :: Simulator where
  "sampleReady =
     (newSimulator (\<lambda>r. newBody sampleLib 0) (\<lambda>r. newMesh sampleLib (BoxGeometry 0 0 0) (0, 0, 0))
        (\<lambda>r. \<lparr>dir = Vec3 0 0 0, origin = Vec3 0 0 0, arrowLength = 0, hex = 0\<rparr>) 10)
       \<lparr>scene := Some [0, 1, 2, 3, 4, 5],
        world := Some \<lparr>World.gravity = Vec3 0 (- 9.8) 0, bodies = [6]\<rparr>,
        robot := \<lparr>base = Some \<lparr>rotationY = 0\<rparr>, segments = [7, 8], targetAngle = 0,
                  Robot.currentAngle = 0, isActive = False\<rparr>\<rparr>"

text \<open>
  The same after a box and a sphere were added, every draw being \<open>1/2\<close> or \<open>4/5\<close>;
  then with the arrows of both objects, both display flags being set.
\<close>

definition sampleTwo :: Simulator where
  "sampleTwo =
     spawnAll sampleLib
       [AddBox (1/2) (1/2) (1/2) (1/2) (1/2) (4/5) (1/2),
        AddSphere (1/2) (1/2) (1/2) (1/2) (1/2) (1/2) (4/5)] sampleReady"

definition sampleShown :: Simulator where
  "sampleShown = (case updateVectors sampleLib sampleTwo of Inl (e, s) \<Rightarrow> s | Inr s \<Rightarrow> s)"

text \<open>
  The target angle of the constructor's rotation, \<open>45\<close> degrees, as \<open>updateRobot\<close>
  computes it.
\<close>

definition sampleTarget :: real where
  "sampleTarget = toDouble (toDouble (45 * toDouble pi) / 180)"

text \<open>
  The simulator after set-up with the robot switched on, the rotation slider moved
  back to \<open>0\<close>, and the robot's angle at nine times the smallest positive double,
  which is where the angle arrives on its way back to \<open>0\<close>.
\<close>

definition sampleStalled :: Simulator where
  "sampleStalled =
     (toggleRobot sampleReady)
       \<lparr>config := (config sampleReady)\<lparr>rotation := Finite 0\<rparr>,
        robot := (robot (toggleRobot sampleReady))\<lparr>Robot.currentAngle :=
          Finite (9 * 2 powi (- 1074))\<rparr>\<rparr>"


section \<open>Properties\<close>

subsection \<open>Rounding to a double\<close>

lemma roundEven_ge: "of_int n \<le> t \<Longrightarrow> n \<le> roundEven t"
  unfolding roundEven_def by (auto simp: le_floor_iff) linarith

lemma roundEven_le: "t \<le> of_int n \<Longrightarrow> roundEven t \<le> n"
proof -
  assume a: "t \<le> of_int n"
  have f: "\<lfloor>t\<rfloor> \<le> n" using a by (simp add: floor_le_iff) 
  show ?thesis
  proof (cases "t = of_int \<lfloor>t\<rfloor>")
    case True
    then have "t - of_int \<lfloor>t\<rfloor> < 1 / 2" by simp
    then show ?thesis using f by (simp add: roundEven_def)
  next
    case False
    then have "of_int \<lfloor>t\<rfloor> < t" by (metis of_int_floor_le order_less_le)
    then have "of_int \<lfloor>t\<rfloor> < (of_int n :: real)" using a by linarith
    then have "\<lfloor>t\<rfloor> + 1 \<le> n" by simp
    then show ?thesis using f by (simp add: roundEven_def)
  qed
qed

lemma floor_log2_eq:
  assumes "2 powi k \<le> x" and "x < 2 powi (k + 1)"
  shows "\<lfloor>log 2 x\<rfloor> = k"
proof -
  have "(0::real) < 2 powi k" by simp
  with assms(1) have x: "0 < x" by linarith
  have a: "(2::real) powr real_of_int k = 2 powi k"
    by (rule powr_real_of_int') simp_all
  have b: "(2::real) powr real_of_int (k + 1) = 2 powi (k + 1)"
    by (rule powr_real_of_int') simp_all
  have "1 < (2::real)" by simp
  from floor_log_eq_powr_iff [OF x this, of k, unfolded a b] assms show ?thesis by blast
qed

lemma quantum_eq:
  assumes "2 powi k \<le> \<bar>x\<bar>" and "\<bar>x\<bar> < 2 powi (k + 1)" and "- 1022 \<le> k"
  shows "quantum x = k - 52"
proof -
  have "(0::real) < 2 powi k" by simp
  with assms(1) have "0 < \<bar>x\<bar>" by linarith
  then have "x \<noteq> 0" by simp
  with assms show ?thesis by (simp add: quantum_def floor_log2_eq)
qed

lemma quantum_le:
  assumes "x \<noteq> 0" and "\<bar>x\<bar> < 2 powi (k + 1)" and "- 1022 \<le> k"
  shows "quantum x \<le> k - 52"
proof -
  have x: "0 < \<bar>x\<bar>" using assms(1) by simp
  have b: "(2::real) powr real_of_int (k + 1) = 2 powi (k + 1)"
    by (rule powr_real_of_int') simp_all
  have "log 2 \<bar>x\<bar> < real_of_int (k + 1)"
    using assms(2) x unfolding b [symmetric] by (subst log_less_iff) simp_all
  then have "\<lfloor>log 2 \<bar>x\<bar>\<rfloor> < k + 1" by (simp only: floor_less_iff)
  then show ?thesis using assms(3) by (simp add: quantum_def)
qed

lemma toDouble_0: "toDouble 0 = 0"
  by (simp add: toDouble_def roundEven_def)

lemma on_grid:
  assumes "q \<le> 0"
  shows "(of_int m :: real) / 2 powi q = of_int (m * 2 ^ nat (- q))"
proof -
  have "(2::real) powi q = inverse (2 ^ nat (- q))"
    using assms by (auto simp: power_int_def power_one_over inverse_eq_divide)
  then show ?thesis by (simp add: field_simps)
qed

lemma toDouble_le:
  assumes "x \<le> of_int m" and "quantum x \<le> 0"
  shows "toDouble x \<le> of_int m"
proof -
  let ?q = "quantum x"
  have p: "(0::real) < 2 powi ?q" by simp
  have "x / 2 powi ?q \<le> of_int m / 2 powi ?q"
    using assms(1) p by (simp add: divide_right_mono)
  then have "roundEven (x / 2 powi ?q) \<le> m * 2 ^ nat (- ?q)"
    unfolding on_grid [OF assms(2)] by (rule roundEven_le)
  then have "(of_int (roundEven (x / 2 powi ?q)) :: real) \<le> of_int (m * 2 ^ nat (- ?q))"
    by (simp only: of_int_le_iff)
  then have "of_int (roundEven (x / 2 powi ?q)) * 2 powi ?q \<le> (of_int m :: real) / 2 powi ?q * 2 powi ?q"
    unfolding on_grid [OF assms(2)] using p by (simp only: mult_le_cancel_right_pos)
  then show ?thesis using p by (simp add: toDouble_def)
qed

lemma toDouble_ge:
  assumes "of_int m \<le> x" and "quantum x \<le> 0"
  shows "of_int m \<le> toDouble x"
proof -
  let ?q = "quantum x"
  have p: "(0::real) < 2 powi ?q" by simp
  have "of_int m / 2 powi ?q \<le> x / 2 powi ?q"
    using assms(1) p by (simp add: divide_right_mono)
  then have "m * 2 ^ nat (- ?q) \<le> roundEven (x / 2 powi ?q)"
    unfolding on_grid [OF assms(2)] by (rule roundEven_ge)
  then have "(of_int (m * 2 ^ nat (- ?q)) :: real) \<le> of_int (roundEven (x / 2 powi ?q))"
    by (simp only: of_int_le_iff)
  then have "(of_int m :: real) / 2 powi ?q * 2 powi ?q \<le> of_int (roundEven (x / 2 powi ?q)) * 2 powi ?q"
    unfolding on_grid [OF assms(2)] using p by (simp only: mult_le_cancel_right_pos)
  then show ?thesis using p by (simp add: toDouble_def)
qed

lemma toDouble_between:
  assumes "of_int lo \<le> x" and "x \<le> of_int hi" and "\<bar>x\<bar> < 2 ^ 53"
  shows "of_int lo \<le> toDouble x \<and> toDouble x \<le> of_int hi"
proof (cases "x = 0")
  case True
  with assms show ?thesis by (simp add: toDouble_0)
next
  case False
  have "\<bar>x\<bar> < 2 powi (52 + 1)" using assms(3) by simp
  from quantum_le [OF False this] have "quantum x \<le> 0" by simp
  with assms show ?thesis by (simp add: toDouble_le toDouble_ge)
qed

lemma toDouble_int:
  assumes "\<bar>real_of_int m\<bar> < 2 ^ 53"
  shows "toDouble (of_int m) = of_int m"
  using toDouble_between [of m "of_int m" m] assms by simp

text \<open>
  Rounding never crosses a double: a double above \<open>x\<close> is above the rounded \<open>x\<close> too,
  and likewise below.
\<close>

lemma roundEven_of_int: "roundEven (of_int n) = n"
  by (simp add: roundEven_def)

lemma toDouble_on_grid_le:
  assumes "x \<le> of_int n * 2 powi quantum x"
  shows "toDouble x \<le> of_int n * 2 powi quantum x"
proof -
  have p: "(0::real) < 2 powi quantum x" by simp
  have "x / 2 powi quantum x \<le> of_int n"
    using assms p by (simp add: pos_divide_le_eq)
  then have "roundEven (x / 2 powi quantum x) \<le> n" by (rule roundEven_le)
  then have "(of_int (roundEven (x / 2 powi quantum x)) :: real) \<le> of_int n" by simp
  then show ?thesis
    unfolding toDouble_def using p by (simp only: mult_le_cancel_right_pos)
qed

lemma toDouble_on_grid_ge:
  assumes "of_int n * 2 powi quantum x \<le> x"
  shows "of_int n * 2 powi quantum x \<le> toDouble x"
proof -
  have p: "(0::real) < 2 powi quantum x" by simp
  have "of_int n \<le> x / 2 powi quantum x"
    using assms p by (simp add: pos_le_divide_eq)
  then have "n \<le> roundEven (x / 2 powi quantum x)" by (rule roundEven_ge)
  then have "(of_int n :: real) \<le> of_int (roundEven (x / 2 powi quantum x))" by simp
  then show ?thesis
    unfolding toDouble_def using p by (simp only: mult_le_cancel_right_pos)
qed

lemma coarser_grid:
  assumes "q \<le> q'"
  shows "\<exists>n. (of_int m :: real) * 2 powi q' = of_int n * 2 powi q"
proof -
  have "(2::real) powi q' = 2 powi (q' - q) * 2 powi q"
    by (simp add: power_int_add [symmetric])
  also have "(2::real) powi (q' - q) = of_int (2 ^ nat (q' - q))"
    using assms by (simp add: power_int_def)
  finally have "(of_int m :: real) * 2 powi q' = of_int (m * 2 ^ nat (q' - q)) * 2 powi q"
    by simp
  then show ?thesis by blast
qed

lemma quantum_ge_1074: "- 1074 \<le> quantum x"
  by (simp add: quantum_def)

lemma below_binade:
  assumes "quantum a < quantum x"
  shows "\<bar>a\<bar> < 2 powi (quantum x + 52) \<and> 2 powi (quantum x + 52) \<le> \<bar>x\<bar>"
proof -
  let ?e = "\<lfloor>log 2 \<bar>x\<bar>\<rfloor>"
  have gt: "- 1074 < quantum x"
    using assms quantum_ge_1074 [of a] by linarith
  have x0: "x \<noteq> 0"
  proof
    assume "x = 0"
    then have "quantum x = - 1074" by (simp add: quantum_def)
    with gt show False by simp
  qed
  then have "quantum x = max (?e - 52) (- 1074)" by (simp add: quantum_def)
  with gt have qx: "quantum x = ?e - 52" by linarith
  from x0 have xp: "0 < \<bar>x\<bar>" by simp
  have a: "(2::real) powr real_of_int ?e = 2 powi ?e"
    by (rule powr_real_of_int') simp_all
  have "(2::real) powr real_of_int ?e \<le> \<bar>x\<bar>"
    using xp by (metis floor_log_eq_powr_iff one_less_numeral_iff semiring_norm(76))
  then have 1: "2 powi (quantum x + 52) \<le> \<bar>x\<bar>" unfolding a qx by simp
  have 2: "\<bar>a\<bar> < 2 powi (quantum x + 52)"
  proof (rule ccontr)
    assume "\<not> \<bar>a\<bar> < 2 powi (quantum x + 52)"
    then have le: "2 powi ?e \<le> \<bar>a\<bar>" unfolding qx by simp
    have "(0::real) < 2 powi ?e" by simp
    with le have ap: "0 < \<bar>a\<bar>" by linarith
    have "real_of_int ?e \<le> log 2 \<bar>a\<bar>"
      using le ap unfolding a [symmetric] by (subst le_log_iff) simp_all
    then have "?e \<le> \<lfloor>log 2 \<bar>a\<bar>\<rfloor>" by (simp add: le_floor_iff)
    moreover have "a \<noteq> 0" using ap by simp
    then have "quantum a = max (\<lfloor>log 2 \<bar>a\<bar>\<rfloor> - 52) (- 1074)" by (simp add: quantum_def)
    ultimately have "quantum x \<le> quantum a" unfolding qx by linarith
    with assms show False by simp
  qed
  from 1 2 show ?thesis by blast
qed

lemma isDouble_grid: "isDouble a \<Longrightarrow> \<exists>m. a = of_int m * 2 powi quantum a"
  unfolding isDouble_def toDouble_def by metis

lemma toDouble_le_double:
  assumes "isDouble a" and "x \<le> a"
  shows "toDouble x \<le> a"
proof (cases "quantum x \<le> quantum a")
  case True
  from isDouble_grid [OF assms(1)] obtain m where "a = of_int m * 2 powi quantum a" by blast
  with coarser_grid [OF True, of m] obtain n where a: "a = of_int n * 2 powi quantum x" by metis
  from toDouble_on_grid_le [of x n] assms(2) show ?thesis unfolding a [symmetric] by simp
next
  case False
  then have "quantum a < quantum x" by simp
  from below_binade [OF this] have b: "\<bar>a\<bar> < 2 powi (quantum x + 52)"
    "2 powi (quantum x + 52) \<le> \<bar>x\<bar>" by simp_all
  have neg: "x \<le> - (2 powi (quantum x + 52))" using b assms(2) by linarith
  have g: "- ((2::real) powi (quantum x + 52)) = of_int (- (2 ^ 52)) * 2 powi quantum x"
    by (simp add: power_int_add)
  from toDouble_on_grid_le [of x "- (2 ^ 52)"] neg
  have "toDouble x \<le> - (2 powi (quantum x + 52))" unfolding g [symmetric] by simp
  with b show ?thesis by linarith
qed

lemma toDouble_ge_double:
  assumes "isDouble a" and "a \<le> x"
  shows "a \<le> toDouble x"
proof (cases "quantum x \<le> quantum a")
  case True
  from isDouble_grid [OF assms(1)] obtain m where "a = of_int m * 2 powi quantum a" by blast
  with coarser_grid [OF True, of m] obtain n where a: "a = of_int n * 2 powi quantum x" by metis
  from toDouble_on_grid_ge [of n x] assms(2) show ?thesis unfolding a [symmetric] by simp
next
  case False
  then have "quantum a < quantum x" by simp
  from below_binade [OF this] have b: "\<bar>a\<bar> < 2 powi (quantum x + 52)"
    "2 powi (quantum x + 52) \<le> \<bar>x\<bar>" by simp_all
  have pos: "2 powi (quantum x + 52) \<le> x" using b assms(2) by linarith
  have g: "(2::real) powi (quantum x + 52) = of_int (2 ^ 52) * 2 powi quantum x"
    by (simp add: power_int_add)
  from toDouble_on_grid_ge [of "2 ^ 52" x] pos
  have "2 powi (quantum x + 52) \<le> toDouble x" unfolding g [symmetric] by simp
  with b show ?thesis by linarith
qed

lemma roundEven_minus: "roundEven (- t) = - roundEven t"
proof (cases "t = of_int \<lfloor>t\<rfloor>")
  case True
  then obtain n where "t = of_int n" by blast
  then have "roundEven t = n" "roundEven (- t) = - n"
    using roundEven_of_int [of n] roundEven_of_int [of "- n"] by simp_all
  then show ?thesis by simp
next
  case False
  then have lt: "of_int \<lfloor>t\<rfloor> < t" by (metis of_int_floor_le order_less_le)
  have f: "\<lfloor>- t\<rfloor> = - \<lfloor>t\<rfloor> - 1"
    by (rule floor_unique) (use lt in \<open>simp_all\<close>, linarith)
  have fr: "- t - of_int \<lfloor>- t\<rfloor> = 1 - (t - of_int \<lfloor>t\<rfloor>)" unfolding f by simp
  show ?thesis
    unfolding roundEven_def [of "- t"] fr unfolding roundEven_def [of t] f
    by auto
qed

lemma quantum_minus: "quantum (- x) = quantum x"
  by (simp add: quantum_def)

lemma toDouble_minus: "toDouble (- x) = - toDouble x"
  by (simp add: toDouble_def quantum_minus roundEven_minus)

lemma isDouble_minus: "isDouble a \<Longrightarrow> isDouble (- a)"
  by (simp add: isDouble_def toDouble_minus)

lemma isDouble_0: "isDouble 0"
  by (simp add: isDouble_def toDouble_0)

lemma toDouble_nonneg: "0 \<le> x \<Longrightarrow> 0 \<le> toDouble x"
  using toDouble_ge_double [OF isDouble_0] by simp

lemma own_grid_isDouble:
  assumes "x = of_int m * 2 powi quantum x"
  shows "isDouble x"
proof -
  have "x / 2 powi quantum x = of_int m"
    by (subst assms) simp
  then show ?thesis
    unfolding isDouble_def toDouble_def using assms by (simp add: roundEven_of_int)
qed

lemma isDouble_power_of_two:
  assumes "- 1074 \<le> n"
  shows "isDouble (2 powi n)"
proof -
  let ?x = "2 powi n :: real"
  have x0: "?x \<noteq> 0" by simp
  have "\<lfloor>log 2 \<bar>?x\<bar>\<rfloor> = n"
    by (rule floor_log2_eq) (simp_all add: power_int_add)
  then have "quantum ?x = max (n - 52) (- 1074)"
    using x0 by (simp add: quantum_def)
  with assms have "quantum ?x \<le> n" by linarith
  from coarser_grid [OF this, of 1] obtain m where "?x = of_int m * 2 powi quantum ?x"
    by auto
  then show ?thesis by (rule own_grid_isDouble)
qed

lemma isDouble_multiple:
  assumes "isDouble a"
  shows "\<exists>m. a = of_int m * 2 powi (- 1074)"
proof -
  from isDouble_grid [OF assms] obtain k where "a = of_int k * 2 powi quantum a" by blast
  with coarser_grid [OF quantum_ge_1074 [of a], of k] show ?thesis by metis
qed

lemma doubles_apart:
  assumes "isDouble c" and "isDouble t" and "c < t"
  shows "2 powi (- 1074) \<le> t - c"
proof -
  from isDouble_multiple [OF assms(1)] obtain m where c: "c = of_int m * 2 powi (- 1074)" by blast
  from isDouble_multiple [OF assms(2)] obtain n where t: "t = of_int n * 2 powi (- 1074)" by blast
  have p: "(0::real) < 2 powi (- 1074)" by simp
  have "(of_int m :: real) < of_int n"
    using assms(3) p unfolding c t by (simp only: mult_less_cancel_right_pos)
  then have "m + 1 \<le> n" by simp
  then have "(of_int (m + 1) :: real) \<le> of_int n" by (simp only: of_int_le_iff)
  then have "of_int (m + 1) * 2 powi (- 1074) \<le> (of_int n :: real) * 2 powi (- 1074)"
    using p by (simp only: mult_le_cancel_right_pos)
  then show ?thesis unfolding c t by (simp add: algebra_simps)
qed

lemma factor_small: "0 \<le> toDouble 0.05 \<and> toDouble 0.05 \<le> 1 / 16"
proof -
  have "isDouble (2 powi (- 4))" by (rule isDouble_power_of_two) simp
  then have "isDouble (1 / 16)" by (simp add: power_int_minus)
  from toDouble_le_double [OF this, of "0.05"] toDouble_nonneg [of "0.05"]
  show ?thesis by simp
qed

lemma blend_increment_bounded:
  assumes "isDouble c" and "isDouble t" and "c \<le> t"
  shows "0 \<le> toDouble (toDouble (t - c) * toDouble 0.05) \<and>
     toDouble (toDouble (t - c) * toDouble 0.05) \<le> t - c"
proof (cases "c = t")
  case True
  then show ?thesis by (simp add: toDouble_0)
next
  case False
  with assms(3) have lt: "c < t" by simp
  let ?D = "t - c"
  let ?n = "\<lfloor>log 2 ?D\<rfloor>"
  have D0: "0 < ?D" using lt by simp
  have small: "2 powi (- 1074) \<le> ?D" by (rule doubles_apart [OF assms(1,2) lt])
  have a: "(2::real) powr real_of_int ?n = 2 powi ?n"
    by (rule powr_real_of_int') simp_all
  have b: "(2::real) powr real_of_int (?n + 1) = 2 powi (?n + 1)"
    by (rule powr_real_of_int') simp_all
  have "1 < (2::real)" by simp
  from floor_log_eq_powr_iff [OF D0 this, of ?n, unfolded a b]
  have lo: "2 powi ?n \<le> ?D" and hi: "?D < 2 powi (?n + 1)" by simp_all
  have c: "(2::real) powr real_of_int (- 1074) = 2 powi (- 1074)"
    by (rule powr_real_of_int') simp_all
  have "real_of_int (- 1074) \<le> log 2 ?D"
    using small D0 unfolding c [symmetric] by (subst le_log_iff) simp_all
  then have n: "- 1074 \<le> ?n" by (rule iffD2 [OF le_floor_iff])
  have d1: "isDouble (2 powi ?n)" by (rule isDouble_power_of_two [OF n])
  have d2: "isDouble (2 powi (?n + 1))" by (rule isDouble_power_of_two) (use n in linarith)
  have dn: "0 \<le> toDouble ?D" using D0 by (simp add: toDouble_nonneg)
  have dh: "toDouble ?D \<le> 2 powi (?n + 1)"
    by (rule toDouble_le_double [OF d2]) (use hi in simp)
  have k: "0 \<le> toDouble 0.05" "toDouble 0.05 \<le> 1 / 16" using factor_small by simp_all
  have "toDouble ?D * toDouble 0.05 \<le> 2 powi (?n + 1) * (1 / 16)"
    using dn dh k by (intro mult_mono) simp_all
  also have "\<dots> = 2 powi ?n / 8" by (simp add: power_int_add)
  also have "\<dots> \<le> 2 powi ?n" by simp
  finally have "toDouble ?D * toDouble 0.05 \<le> 2 powi ?n" .
  from toDouble_le_double [OF d1 this] lo
  have "toDouble (toDouble ?D * toDouble 0.05) \<le> ?D" by linarith
  moreover have "0 \<le> toDouble ?D * toDouble 0.05"
    using dn k(1) by (rule mult_nonneg_nonneg)
  then have "0 \<le> toDouble (toDouble ?D * toDouble 0.05)"
    by (rule toDouble_nonneg)
  ultimately show ?thesis by blast
qed

lemma blend_up:
  assumes "isDouble c" and "isDouble t" and "c \<le> t"
  shows "c \<le> blend c t \<and> blend c t \<le> t"
proof -
  from blend_increment_bounded [OF assms]
  have e: "0 \<le> toDouble (toDouble (t - c) * toDouble 0.05)"
    "toDouble (toDouble (t - c) * toDouble 0.05) \<le> t - c" by simp_all
  have "c \<le> blend c t"
    unfolding blend_def by (rule toDouble_ge_double [OF assms(1)]) (use e in simp)
  moreover have "blend c t \<le> t"
    unfolding blend_def by (rule toDouble_le_double [OF assms(2)]) (use e in simp)
  ultimately show ?thesis by blast
qed

lemma blend_minus: "blend (- c) (- t) = - blend c t"
proof -
  let ?e = "toDouble (toDouble (t - c) * toDouble 0.05)"
  have "- t - - c = - (t - c)" by simp
  then have "toDouble (- t - - c) = - toDouble (t - c)" by (simp only: toDouble_minus)
  then have "toDouble (toDouble (- t - - c) * toDouble 0.05) = toDouble (- (toDouble (t - c) * toDouble 0.05))"
    by (simp only: mult_minus_left)
  also have "\<dots> = - ?e" by (rule toDouble_minus)
  finally have "blend (- c) (- t) = toDouble (- c + - ?e)" unfolding blend_def by (rule arg_cong)
  also have "- c + - ?e = - (c + ?e)" by simp
  also have "toDouble (- (c + ?e)) = - toDouble (c + ?e)" by (rule toDouble_minus)
  finally show ?thesis unfolding blend_def .
qed

lemma blend_down:
  assumes "isDouble c" and "isDouble t" and "t \<le> c"
  shows "t \<le> blend c t \<and> blend c t \<le> c"
  using blend_up [OF isDouble_minus [OF assms(1)] isDouble_minus [OF assms(2)]] assms(3)
  by (simp add: blend_minus)



subsection \<open>JavaScript numbers\<close>

lemma roundEven_down: "0 \<le> f \<Longrightarrow> f < 1 / 2 \<Longrightarrow> roundEven (of_int n + f) = n"
proof -
  assume f: "0 \<le> f" "f < 1 / 2"
  then have "\<lfloor>of_int n + f\<rfloor> = n" by (intro floor_unique) simp_all
  then show ?thesis using f by (simp add: roundEven_def)
qed

lemma isDouble_toDouble: "isDouble (toDouble x)"
proof (cases "quantum (toDouble x) \<le> quantum x")
  case True
  from coarser_grid [OF True, of "roundEven (x / 2 powi quantum x)"] obtain n where
    "of_int (roundEven (x / 2 powi quantum x)) * 2 powi quantum x =
       (of_int n :: real) * 2 powi quantum (toDouble x)"
    by blast
  then have "toDouble x = of_int n * 2 powi quantum (toDouble x)"
    by (subst toDouble_def) simp
  then show ?thesis by (rule own_grid_isDouble)
next
  case False
  let ?y = "toDouble x"
  let ?p = "2 powi (quantum ?y + 52) :: real"
  from False have "quantum x < quantum ?y" by simp
  from below_binade [OF this] have b: "\<bar>x\<bar> < ?p" "?p \<le> \<bar>?y\<bar>" by simp_all
  have dp: "isDouble ?p"
    by (rule isDouble_power_of_two) (use quantum_ge_1074 [of ?y] in linarith)
  have "?y \<le> ?p" by (rule toDouble_le_double [OF dp]) (use b(1) in linarith)
  moreover have "- ?p \<le> ?y"
    by (rule toDouble_ge_double [OF isDouble_minus [OF dp]]) (use b(1) in linarith)
  ultimately have "?y = ?p \<or> ?y = - ?p" using b(2) by linarith
  then show ?thesis using dp isDouble_minus [OF dp] by auto
qed

lemma toDouble_abs_le:
  assumes "isDouble a" and "\<bar>x\<bar> \<le> a"
  shows "\<bar>toDouble x\<bar> \<le> a"
proof -
  have "toDouble x \<le> a" by (rule toDouble_le_double [OF assms(1)]) (use assms(2) in linarith)
  moreover have "- a \<le> toDouble x"
    by (rule toDouble_ge_double [OF isDouble_minus [OF assms(1)]]) (use assms(2) in linarith)
  ultimately show ?thesis by linarith
qed

lemma isDouble_2_1023: "isDouble (2 ^ 1023)"
proof -
  have "isDouble (2 powi 1023)" by (rule isDouble_power_of_two) simp
  moreover have "(2::real) powi 1023 = 2 ^ 1023" by (simp add: power_int_def)
  ultimately show ?thesis by simp
qed

lemma fl_Finite: "\<bar>toDouble x\<bar> < 2 ^ 1024 \<Longrightarrow> fl x = Finite (toDouble x)"
  unfolding fl_def by (auto simp del: power_numeral)

lemma fl_eq_Finite: "fl x = Finite y \<Longrightarrow> y = toDouble x \<and> finiteDouble y"
  unfolding fl_def finiteDouble_def
  by (auto simp add: isDouble_toDouble simp del: power_numeral split: if_splits)

lemma finiteDouble_fl: "finiteDouble a \<Longrightarrow> fl a = Finite a"
  unfolding finiteDouble_def isDouble_def using fl_Finite [of a] by (simp del: power_numeral)

lemma finiteDouble_0: "finiteDouble 0"
  by (simp add: finiteDouble_def isDouble_0)

lemma target_finite:
  assumes "ndiv (nmul r MathPI) (Finite 180) = Finite t"
  shows "finiteDouble t"
proof (cases r)
  case (Finite a)
  show ?thesis
  proof (cases "fl (a * toDouble pi)")
    case (Finite p)
    with assms \<open>r = Finite a\<close> have "fl (p / 180) = Finite t" by (simp add: MathPI_def)
    then show ?thesis by (simp add: fl_eq_Finite)
  qed (use assms \<open>r = Finite a\<close> in \<open>simp_all add: MathPI_def\<close>)
qed (use assms in \<open>auto simp: MathPI_def split: if_splits\<close>)


lemma increment_abs:
  assumes "isDouble c" and "isDouble t"
  shows "\<bar>toDouble (toDouble (t - c) * toDouble 0.05)\<bar> \<le> \<bar>t - c\<bar>"
proof (cases "c \<le> t")
  case True
  from blend_increment_bounded [OF assms True] show ?thesis by linarith
next
  case False
  then have le: "t \<le> c" by simp
  have "t - c = - (c - t)" by simp
  then have "toDouble (t - c) = - toDouble (c - t)" by (simp only: toDouble_minus)
  then have "toDouble (toDouble (t - c) * toDouble 0.05) =
      - toDouble (toDouble (c - t) * toDouble 0.05)"
    by (simp only: mult_minus_left toDouble_minus)
  with blend_increment_bounded [OF assms(2,1) le] show ?thesis by linarith
qed

lemma blend_between:
  assumes "isDouble c" and "isDouble t"
  shows "(c \<le> t \<longrightarrow> c \<le> blend c t \<and> blend c t \<le> t) \<and>
     (t \<le> c \<longrightarrow> t \<le> blend c t \<and> blend c t \<le> c)"
  using blend_up [OF assms] blend_down [OF assms] by blast

lemma blend_computed:
  assumes fc: "finiteDouble c" and ft: "finiteDouble t" and near: "\<bar>t - c\<bar> < 2 ^ 1023"
  shows "nadd (Finite c) (nmul (nsub (Finite t) (Finite c)) (Finite (toDouble 0.05))) =
     Finite (blend c t)"
    and "finiteDouble (blend c t)"
proof -
  have dc: "isDouble c" and dt: "isDouble t" and bc: "\<bar>c\<bar> < 2 ^ 1024" and bt: "\<bar>t\<bar> < 2 ^ 1024"
    using fc ft by (simp_all only: finiteDouble_def)
  let ?d = "toDouble (t - c)"
  let ?e = "toDouble (?d * toDouble 0.05)"
  have "\<bar>?d\<bar> \<le> 2 ^ 1023"
    by (rule toDouble_abs_le [OF isDouble_2_1023]) (use near in linarith)
  moreover have "(2::real) ^ 1023 < 2 ^ 1024" by (rule power_strict_increasing) simp_all
  ultimately have "\<bar>?d\<bar> < 2 ^ 1024" by linarith
  then have "fl (t - c) = Finite ?d" by (rule fl_Finite)
  then have "fl (t + - c) = Finite ?d" by (simp only: add_uminus_conv_diff)
  then have df: "nsub (Finite t) (Finite c) = Finite ?d"
    by (simp only: nsub_def nneg.simps nadd.simps)
  have "\<bar>?e\<bar> \<le> \<bar>t - c\<bar>" by (rule increment_abs [OF dc dt])
  with near \<open>(2::real) ^ 1023 < 2 ^ 1024\<close> have "\<bar>?e\<bar> < 2 ^ 1024" by linarith
  then have "fl (?d * toDouble 0.05) = Finite ?e" by (rule fl_Finite)
  then have pr: "nmul (Finite ?d) (Finite (toDouble 0.05)) = Finite ?e"
    by (simp only: nmul.simps)
  from blend_between [OF dc dt] bc bt have "\<bar>blend c t\<bar> < 2 ^ 1024" by linarith
  then have "\<bar>toDouble (c + ?e)\<bar> < 2 ^ 1024" by (simp only: blend_def)
  then have "fl (c + ?e) = Finite (toDouble (c + ?e))" by (rule fl_Finite)
  then have su: "nadd (Finite c) (Finite ?e) = Finite (blend c t)"
    by (simp only: nadd.simps blend_def)
  show "nadd (Finite c) (nmul (nsub (Finite t) (Finite c)) (Finite (toDouble 0.05))) =
     Finite (blend c t)"
    by (simp only: df pr su)
  have "isDouble (blend c t)" unfolding blend_def by (rule isDouble_toDouble)
  with \<open>\<bar>blend c t\<bar> < 2 ^ 1024\<close> show "finiteDouble (blend c t)"
    by (simp only: finiteDouble_def)
qed

lemma isDouble_dyadic:
  assumes "\<bar>of_int m\<bar> < (2::real) ^ 53" and "- 1074 \<le> e"
  shows "isDouble (of_int m * 2 powi e)"
proof (cases "m = 0")
  case True
  then show ?thesis by (simp add: isDouble_0)
next
  case False
  let ?x = "of_int m * 2 powi e :: real"
  let ?k = "max (e + 52) (- 1022)"
  have x0: "?x \<noteq> 0" using False by simp
  have "\<bar>?x\<bar> = \<bar>of_int m\<bar> * 2 powi e" by (simp add: abs_mult)
  also have "\<dots> < 2 ^ 53 * 2 powi e"
    using assms(1) by (intro mult_strict_right_mono) simp_all
  also have "\<dots> = 2 powi (e + 53)" by (simp add: power_int_add)
  also have "\<dots> \<le> 2 powi (?k + 1)" by (rule power_int_increasing) simp_all
  finally have "\<bar>?x\<bar> < 2 powi (?k + 1)" .
  from quantum_le [OF x0 this] assms(2) have "quantum ?x \<le> e" by simp
  from coarser_grid [OF this, of m] obtain n where "?x = of_int n * 2 powi quantum ?x" by blast
  then show ?thesis by (rule own_grid_isDouble)
qed

lemma toDouble_tiny:
  assumes "0 \<le> x" and "x < 2 powi (- 1075)"
  shows "toDouble x = 0"
proof (cases "x = 0")
  case True
  then show ?thesis by (simp add: toDouble_0)
next
  case False
  have "(2::real) powi (- 1075) \<le> 2 powi (- 1022 + 1)"
    by (rule power_int_increasing) simp_all
  with assms have "\<bar>x\<bar> < 2 powi (- 1022 + 1)" by linarith
  from quantum_le [OF False this] quantum_ge_1074 [of x] have q: "quantum x = - 1074" by simp
  have "(2::real) powi (- 1075) = 2 powi (- 1074) / 2"
    by (simp add: power_int_minus field_simps)
  with assms(2) have "x / 2 powi (- 1074) < 1 / 2" by (simp add: field_simps)
  moreover have "0 \<le> x / 2 powi (- 1074)" using assms(1) by simp
  ultimately have "roundEven (of_int 0 + x / 2 powi (- 1074)) = 0" by (intro roundEven_down)
  then show ?thesis unfolding toDouble_def q by simp
qed

lemma fl_0: "fl 0 = Finite 0"
  by (simp add: fl_def toDouble_0)

lemma MathPI_bounds: "2 \<le> toDouble pi \<and> toDouble pi \<le> 4"
  using toDouble_between [of 2 pi 4] pi_ge_two pi_less_4 by simp

subsection \<open>The sample states, evaluated\<close>

lemmas sample_defs = sampleTwo_def sampleReady_def sampleLib_def newSimulator_def addBox_def
  addSphere_def addObject_def zeroStats_def

lemma isDouble_fractions: "isDouble (1 / 4)" "isDouble (1 / 8)"
proof -
  have "isDouble (2 powi (- 2))" by (rule isDouble_power_of_two) simp
  moreover have "isDouble (2 powi (- 3))" by (rule isDouble_power_of_two) simp
  ultimately show "isDouble (1 / 4)" "isDouble (1 / 8)" by (simp_all add: power_int_minus)
qed

lemma threshold_small: "toDouble (1 / 10) \<le> 1 / 8"
  by (rule toDouble_le_double [OF isDouble_fractions(2)]) simp

lemma magnitude_fast:
  assumes "1 / 8 \<le> vy v * vy v"
  shows "1 / 4 \<le> magnitude v"
proof -
  let ?xx = "toDouble (vx v * vx v)"
  let ?yy = "toDouble (vy v * vy v)"
  let ?zz = "toDouble (vz v * vz v)"
  have xx: "0 \<le> ?xx" by (rule toDouble_nonneg) simp
  have yy: "1 / 8 \<le> ?yy" by (rule toDouble_ge_double [OF isDouble_fractions(2) assms])
  have zz: "0 \<le> ?zz" by (rule toDouble_nonneg) simp
  have s1: "1 / 8 \<le> toDouble (?xx + ?yy)"
    by (rule toDouble_ge_double [OF isDouble_fractions(2)]) (use xx yy in linarith)
  have s2: "1 / 8 \<le> toDouble (toDouble (?xx + ?yy) + ?zz)"
    by (rule toDouble_ge_double [OF isDouble_fractions(2)]) (use s1 zz in linarith)
  have "1 / 4 \<le> sqrt (toDouble (toDouble (?xx + ?yy) + ?zz))"
    by (rule real_le_rsqrt) (use s2 in \<open>simp add: power2_eq_square\<close>)
  then show ?thesis
    unfolding magnitude_def by (rule toDouble_ge_double [OF isDouble_fractions(1)])
qed

lemma sample_speeds:
  "toDouble (1 / 10) < magnitude (Vec3 (3 / 10) (2 / 5) 0)"
  "toDouble (1 / 10) < magnitude (Vec3 0 (2 / 5) (3 / 10))"
proof -
  have "1 / 4 \<le> magnitude (Vec3 (3 / 10) (2 / 5) 0)" by (rule magnitude_fast) simp
  with threshold_small show "toDouble (1 / 10) < magnitude (Vec3 (3 / 10) (2 / 5) 0)"
    by linarith
  have "1 / 4 \<le> magnitude (Vec3 0 (2 / 5) (3 / 10))" by (rule magnitude_fast) simp
  with threshold_small show "toDouble (1 / 10) < magnitude (Vec3 0 (2 / 5) (3 / 10))"
    by linarith
qed

lemma sampleTwo_scene: "scene sampleTwo = Some [0, 1, 2, 3, 4, 5, 11, 13]"
  by (simp add: sample_defs Let_def)

lemma sampleTwo_world:
  "world sampleTwo = Some \<lparr>World.gravity = Vec3 0 (- 9.8) 0, bodies = [6, 10, 12]\<rparr>"
  by (simp add: sample_defs Let_def)

lemma sampleTwo_objects:
  "objects sampleTwo = [\<lparr>body = 10, mesh = 11, type = ''box'', mass = 5\<rparr>,
     \<lparr>body = 12, mesh = 13, type = ''sphere'', mass = 5\<rparr>]"
  by (simp add: sample_defs Let_def)

lemma sampleTwo_vectors: "vectors sampleTwo = []"
  by (simp add: sample_defs Let_def)

lemma sampleTwo_nextRef: "nextRef sampleTwo = 14"
  by (simp add: sample_defs Let_def)

lemma sampleTwo_flags:
  "showVelocityVectors sampleTwo" "showMomentumVectors sampleTwo" "\<not> isRunning sampleTwo"
  "deltaTime sampleTwo = 1 / 60" "simulationTime sampleTwo = 0"
  "robot sampleTwo = \<lparr>base = Some \<lparr>rotationY = 0\<rparr>, segments = [7, 8], targetAngle = 0,
     Robot.currentAngle = 0, isActive = False\<rparr>"
  by (simp_all add: sample_defs Let_def)

lemma sampleTwo_bodies:
  "bodyStore sampleTwo 10 = \<lparr>Body.mass = 5, Body.position = Vec3 0 (21 / 2) 0,
     velocity = Vec3 (3 / 10) (2 / 5) 0, Body.quaternion = Quat 0 0 0 1,
     material = Some \<lparr>Material.friction = 3 / 10, Material.restitution = 3 / 5\<rparr>\<rparr>"
  "bodyStore sampleTwo 12 = \<lparr>Body.mass = 5, Body.position = Vec3 0 (21 / 2) 0,
     velocity = Vec3 0 (2 / 5) (3 / 10), Body.quaternion = Quat 0 0 0 1,
     material = Some \<lparr>Material.friction = 3 / 10, Material.restitution = 3 / 5\<rparr>\<rparr>"
  by (simp_all add: sample_defs Let_def)

lemma objectVectors_alt:
  "objectVectors L obj s =
     (if magnitude (Body.velocity (bodyStore s (body obj))) > toDouble 0.1 then
        andThen
          (if showVelocityVectors s then pushArrow (velocityArrow L (bodyStore s) obj) ''velocity'' s
           else Inr s)
          (\<lambda>s1. if showMomentumVectors s1
             then pushArrow (momentumArrow L (bodyStore s) obj) ''momentum'' s1 else Inr s1)
      else Inr s)"
  unfolding objectVectors_def velocityArrow_def momentumArrow_def Let_def
  by (simp cong: if_cong)

lemma sampleShown_eq:
  "updateVectors sampleLib sampleTwo =
     Inr (sampleTwo\<lparr>scene := Some [0, 1, 2, 3, 4, 5, 11, 13, 14, 15, 16, 17],
       vectors := [\<lparr>arrow = Some 14, type = ''velocity''\<rparr>, \<lparr>arrow = Some 15, type = ''momentum''\<rparr>,
         \<lparr>arrow = Some 16, type = ''velocity''\<rparr>, \<lparr>arrow = Some 17, type = ''momentum''\<rparr>],
       arrowStore := (arrowStore sampleTwo)
         (14 := velocityArrow sampleLib (bodyStore sampleTwo)
                  \<lparr>body = 10, mesh = 11, type = ''box'', mass = 5\<rparr>,
          15 := momentumArrow sampleLib (bodyStore sampleTwo)
                  \<lparr>body = 10, mesh = 11, type = ''box'', mass = 5\<rparr>,
          16 := velocityArrow sampleLib (bodyStore sampleTwo)
                  \<lparr>body = 12, mesh = 13, type = ''sphere'', mass = 5\<rparr>,
          17 := momentumArrow sampleLib (bodyStore sampleTwo)
                  \<lparr>body = 12, mesh = 13, type = ''sphere'', mass = 5\<rparr>),
       nextRef := 18\<rparr>)"
  by (simp add: updateVectors_def objectVectors_alt pushArrow_def andThen_def Let_def
      sampleTwo_objects sampleTwo_vectors sampleTwo_scene sampleTwo_nextRef sampleTwo_flags
      sampleTwo_bodies sample_speeds)

subsection \<open>Starting and stopping\<close>

lemma runControl_flag: "\<exists>b. runControl c s = Inr (s\<lparr>isRunning := b\<rparr>)"
  by (cases c) (auto simp: play_def pause_def onKeyPress_def)

lemma forEach_runControl_flag: "\<exists>b. forEach runControl cs s = Inr (s\<lparr>isRunning := b\<rparr>)"
proof (induction cs arbitrary: s)
  case Nil
  have "s = s\<lparr>isRunning := isRunning s\<rparr>" by simp
  then show ?case by (metis forEach.simps(1))
next
  case (Cons c cs)
  obtain b where b: "runControl c s = Inr (s\<lparr>isRunning := b\<rparr>)"
    using runControl_flag by blast
  obtain b' where "forEach runControl cs (s\<lparr>isRunning := b\<rparr>) = Inr (s\<lparr>isRunning := b\<rparr>\<lparr>isRunning := b'\<rparr>)"
    using Cons by blast
  with b show ?case
    by (auto simp: andThen_def)
qed

text \<open>
  C8. Whatever the state, a finite sequence of presses of the play button, of the pause
  button and of the space key completes without an exception, and the state it
  leaves is the state before with at most the flag \<open>isRunning\<close> changed: the objects
  list, every body and every mesh, the vectors list and its arrows, the configuration
  and the statistics are as before.
\<close>

theorem pause_play_change_only_isRunning:
  "\<exists>s'. forEach runControl cs s = Inr s' \<and> s' = s\<lparr>isRunning := isRunning s'\<rparr> \<and>
      objects s' = objects s \<and> bodyStore s' = bodyStore s \<and> meshStore s' = meshStore s \<and>
      vectors s' = vectors s \<and> arrowStore s' = arrowStore s \<and> config s' = config s \<and>
      stats s' = stats s"
proof -
  obtain b where "forEach runControl cs s = Inr (s\<lparr>isRunning := b\<rparr>)"
    using forEach_runControl_flag by blast
  then show ?thesis by simp
qed

subsection \<open>Reset\<close>

lemma set_fold_removeAll: "set (fold removeAll xs ys) = set ys - set xs"
  by (induction xs arbitrary: ys) auto

lemma removeObject_ready:
  "scene s = Some ch \<Longrightarrow> world s = Some w \<Longrightarrow>
   removeObject obj s =
     Inr (s\<lparr>scene := Some (removeAll (mesh obj) ch),
            world := Some (w\<lparr>bodies := removeAll (body obj) (bodies w)\<rparr>)\<rparr>)"
  by (simp add: removeObject_def)

lemma forEach_removeObject:
  "scene s = Some ch \<Longrightarrow> world s = Some w \<Longrightarrow>
   forEach removeObject os s =
     Inr (s\<lparr>scene := Some (fold removeAll (map mesh os) ch),
            world := Some (w\<lparr>bodies := fold removeAll (map body os) (bodies w)\<rparr>)\<rparr>)"
proof (induction os arbitrary: s ch w)
  case Nil
  then show ?case by simp
next
  case (Cons obj os)
  let ?w1 = "w\<lparr>bodies := removeAll (body obj) (bodies w)\<rparr>"
  let ?s1 = "s\<lparr>scene := Some (removeAll (mesh obj) ch), world := Some ?w1\<rparr>"
  have "forEach removeObject (obj # os) s = forEach removeObject os ?s1"
    using Cons.prems by (simp add: removeObject_ready andThen_def)
  also have "\<dots> = Inr (?s1\<lparr>scene := Some (fold removeAll (map mesh os) (removeAll (mesh obj) ch)),
            world := Some (?w1\<lparr>bodies := fold removeAll (map body os) (bodies ?w1)\<rparr>)\<rparr>)"
    by (rule Cons.IH) simp_all
  finally show ?case by simp
qed

lemma removeVector_ready:
  "scene s = Some ch \<Longrightarrow>
   removeVector v s = Inr (s\<lparr>scene := Some (fold removeAll (case arrow v of None \<Rightarrow> [] | Some a \<Rightarrow> [a]) ch)\<rparr>)"
  by (simp add: removeVector_def split: option.splits)

lemma forEach_removeVector:
  "scene s = Some ch \<Longrightarrow>
   \<exists>ch'. forEach removeVector vs s = Inr (s\<lparr>scene := Some ch'\<rparr>) \<and>
     set ch' = set ch - {a. \<exists>v\<in>set vs. arrow v = Some a}"
proof (induction vs arbitrary: s ch)
  case Nil
  then have "forEach removeVector [] s = Inr (s\<lparr>scene := Some ch\<rparr>)" by simp
  moreover have "set ch = set ch - {a. \<exists>v\<in>set ([] :: Vector list). arrow v = Some a}" by simp
  ultimately show ?case by blast
next
  case (Cons v vs)
  let ?ch1 = "fold removeAll (case arrow v of None \<Rightarrow> [] | Some a \<Rightarrow> [a]) ch"
  let ?s1 = "s\<lparr>scene := Some ?ch1\<rparr>"
  have 1: "forEach removeVector (v # vs) s = forEach removeVector vs ?s1"
    using Cons.prems by (simp add: removeVector_ready andThen_def)
  have "scene ?s1 = Some ?ch1" by simp
  from Cons.IH [OF this] obtain ch' where
    2: "forEach removeVector vs ?s1 = Inr (?s1\<lparr>scene := Some ch'\<rparr>)"
    and 3: "set ch' = set ?ch1 - {a. \<exists>v\<in>set vs. arrow v = Some a}"
    by blast
  have 4: "set ch' = set ch - {a. \<exists>v\<in>set (v # vs). arrow v = Some a}"
    unfolding 3 by (cases "arrow v") auto
  have "forEach removeVector (v # vs) s = Inr (s\<lparr>scene := Some ch'\<rparr>)"
    using 1 2 by simp
  with 4 show ?case by blast
qed

text \<open>
  C2. In every state whose scene and world exist (set-up has run, as in every state
  a handler of the page can be called in), \<open>reset\<close> completes and leaves both lists
  empty, the statistics all zero, the simulation time zero, the simulation paused and
  the robot reset; the scene no longer holds the mesh of any object nor the arrow of
  any vector, and the world no longer holds the body of any object.
\<close>

theorem reset_clears_lists_and_statistics:
  assumes "scene s = Some ch" and "world s = Some w"
  shows "\<exists>s' ch' w'. reset s = Inr s' \<and> objects s' = [] \<and> vectors s' = [] \<and>
     stats s' = \<lparr> activeObjects = 0, collisionCount = 0, totalEnergy = Number 0,
       maxVelocity = Number 0, avgVelocity = Number 0, currentAngle = Number 0,
       angularAcceleration = 0, damageReduction = 0, trajectoryEfficiency = 0 \<rparr> \<and>
     simulationTime s' = 0 \<and> \<not> isRunning s' \<and>
     Robot.currentAngle (robot s') = 0 \<and> targetAngle (robot s') = 0 \<and> \<not> isActive (robot s') \<and>
     scene s' = Some ch' \<and> world s' = Some w' \<and>
     (\<forall>obj\<in>set (objects s). mesh obj \<notin> set ch' \<and> body obj \<notin> set (bodies w')) \<and>
     (\<forall>v\<in>set (vectors s). \<forall>a. arrow v = Some a \<longrightarrow> a \<notin> set ch')"
proof -
  let ?s1 = "(pause s)\<lparr>simulationTime := 0\<rparr>"
  let ?ch2 = "fold removeAll (map mesh (objects s)) ch"
  let ?w2 = "w\<lparr>bodies := fold removeAll (map body (objects s)) (bodies w)\<rparr>"
  let ?s2 = "?s1\<lparr>scene := Some ?ch2, world := Some ?w2\<rparr>"
  let ?s3 = "?s2\<lparr>objects := []\<rparr>"
  have a: "forEach removeObject (objects ?s1) ?s1 = Inr ?s2"
    using assms forEach_removeObject [of ?s1 ch w "objects s"] by (simp add: pause_def)
  have "scene ?s3 = Some ?ch2" by simp
  from forEach_removeVector [OF this, of "vectors s"] obtain ch' where
    b: "forEach removeVector (vectors s) ?s3 = Inr (?s3\<lparr>scene := Some ch'\<rparr>)"
    and c: "set ch' = set ?ch2 - {a. \<exists>v\<in>set (vectors s). arrow v = Some a}"
    by blast
  have v3: "vectors ?s3 = vectors s" by (simp add: pause_def)
  have r: "reset s = Inr (resetRobot (?s3\<lparr>scene := Some ch'\<rparr>\<lparr>vectors := [], stats := zeroStats\<rparr>))"
    unfolding reset_def Let_def a andThen_def using b v3 by simp
  have d: "\<forall>obj\<in>set (objects s). mesh obj \<notin> set ch' \<and> body obj \<notin> set (bodies ?w2)"
    unfolding c by (simp add: set_fold_removeAll)
  have e: "\<forall>v\<in>set (vectors s). \<forall>a. arrow v = Some a \<longrightarrow> a \<notin> set ch'"
    unfolding c by blast
  show ?thesis
    unfolding r using d e
    by (simp add: resetRobot_def zeroStats_def pause_def)
qed

lemma sampleShown_fields:
  "scene sampleShown = Some [0, 1, 2, 3, 4, 5, 11, 13, 14, 15, 16, 17]"
  "world sampleShown = Some \<lparr>World.gravity = Vec3 0 (- 9.8) 0, bodies = [6, 10, 12]\<rparr>"
  "objects sampleShown = [\<lparr>body = 10, mesh = 11, type = ''box'', mass = 5\<rparr>,
     \<lparr>body = 12, mesh = 13, type = ''sphere'', mass = 5\<rparr>]"
  "vectors sampleShown = [\<lparr>arrow = Some 14, type = ''velocity''\<rparr>,
     \<lparr>arrow = Some 15, type = ''momentum''\<rparr>, \<lparr>arrow = Some 16, type = ''velocity''\<rparr>,
     \<lparr>arrow = Some 17, type = ''momentum''\<rparr>]"
  by (simp_all add: sampleShown_def sampleShown_eq sampleTwo_world sampleTwo_objects)

theorem reset_clears_lists_and_statistics_witness:
  "scene sampleShown = Some [0, 1, 2, 3, 4, 5, 11, 13, 14, 15, 16, 17] \<and>
   world sampleShown = Some \<lparr>World.gravity = Vec3 0 (- 9.8) 0, bodies = [6, 10, 12]\<rparr> \<and>
   (\<exists>s'. reset sampleShown = Inr s' \<and> objects s' = [] \<and> vectors s' = [] \<and>
      activeObjects (stats s') = 0 \<and> simulationTime s' = 0 \<and> \<not> isRunning s' \<and>
      scene s' = Some [0, 1, 2, 3, 4, 5] \<and>
      world s' = Some \<lparr>World.gravity = Vec3 0 (- 9.8) 0, bodies = [6]\<rparr>)"
proof -
  have sc: "scene sampleShown = Some [0, 1, 2, 3, 4, 5, 11, 13, 14, 15, 16, 17]"
    and wo: "world sampleShown = Some \<lparr>World.gravity = Vec3 0 (- 9.8) 0, bodies = [6, 10, 12]\<rparr>"
    by (simp_all add: sampleShown_fields)
  from reset_clears_lists_and_statistics [OF sc wo] obtain s' where
    r: "reset sampleShown = Inr s'" and o: "objects s' = []" "vectors s' = []"
      "activeObjects (stats s') = 0" "simulationTime s' = 0" "\<not> isRunning s'"
    by auto
  have "\<exists>s2. reset sampleShown = Inr s2 \<and> scene s2 = Some [0, 1, 2, 3, 4, 5] \<and>
      world s2 = Some \<lparr>World.gravity = Vec3 0 (- 9.8) 0, bodies = [6]\<rparr>"
    by (simp add: reset_def pause_def removeObject_def removeVector_def andThen_def Let_def
        resetRobot_def sampleShown_fields)
  with r have "scene s' = Some [0, 1, 2, 3, 4, 5]"
    "world s' = Some \<lparr>World.gravity = Vec3 0 (- 9.8) 0, bodies = [6]\<rparr>"
    by auto
  with sc wo r o show ?thesis by blast
qed

subsection \<open>The physics step\<close>

lemma copyTransform_frame: "\<exists>m. copyTransform obj s = s\<lparr>meshStore := m\<rparr>"
  unfolding copyTransform_def by (rule exI) (rule refl)



lemma fold_copyTransform_frame: "\<exists>m. fold copyTransform os s = s\<lparr>meshStore := m\<rparr>"
proof (induction os arbitrary: s)
  case Nil
  have "fold copyTransform [] s = s\<lparr>meshStore := meshStore s\<rparr>" by simp
  then show ?case by blast
next
  case (Cons obj os)
  obtain m1 where 1: "copyTransform obj s = s\<lparr>meshStore := m1\<rparr>"
    using copyTransform_frame by blast
  obtain m2 where 2: "fold copyTransform os (s\<lparr>meshStore := m1\<rparr>) = s\<lparr>meshStore := m1\<rparr>\<lparr>meshStore := m2\<rparr>"
    using Cons.IH by blast
  have "fold copyTransform (obj # os) s = s\<lparr>meshStore := m2\<rparr>"
    using 1 2 by simp
  then show ?case by blast
qed




lemma updateRobot_completes:
  assumes "base (robot s) = Some g"
  shows "\<exists>r st. updateRobot s = Inr (s\<lparr>robot := r, stats := st\<rparr>)"
proof (cases "isActive (robot s)")
  case True
  with assms show ?thesis
    unfolding updateRobot_def Let_def by (simp del: ex_simps) (intro exI, rule refl)
next
  case False
  then have "updateRobot s = Inr (s\<lparr>robot := robot s, stats := stats s\<rparr>)"
    by (simp add: updateRobot_def)
  then show ?thesis by blast
qed

lemma stepWorld_eq:
  "worldStep L dt (w, bodyStore s) = (w', store') \<Longrightarrow>
   stepWorld L dt w s = s\<lparr>world := Some w', bodyStore := store'\<rparr>"
  by (simp add: stepWorld_def)

lemma updatePhysics_result:
  assumes "world s = Some w" and "base (robot s) = Some g"
  shows "\<exists>r st. updatePhysics L s =
     Inr ((fold copyTransform (objects s) (stepWorld L (deltaTime s) w s))\<lparr>robot := r, stats := st\<rparr>)"
proof -
  obtain w' store' where ws: "worldStep L (deltaTime s) (w, bodyStore s) = (w', store')"
    by (cases "worldStep L (deltaTime s) (w, bodyStore s)")
  let ?s1 = "stepWorld L (deltaTime s) w s"
  have s1: "?s1 = s\<lparr>world := Some w', bodyStore := store'\<rparr>"
    using ws by (rule stepWorld_eq)
  let ?s2 = "fold copyTransform (objects s) ?s1"
  obtain m where s2: "?s2 = ?s1\<lparr>meshStore := m\<rparr>"
    using fold_copyTransform_frame by blast
  have "base (robot ?s2) = Some g"
    using assms(2) by (subst s2, subst s1) simp
  from updateRobot_completes [OF this] obtain r st where
    u: "updateRobot ?s2 = Inr (?s2\<lparr>robot := r, stats := st\<rparr>)"
    by blast
  have "objects ?s1 = objects s" by (subst s1) simp
  then have "updatePhysics L s = Inr (?s2\<lparr>robot := r, stats := st\<rparr>)"
    using assms(1) u by (simp add: updatePhysics_def Let_def)
  then show ?thesis by blast
qed

text \<open>
  C9. \<open>step\<close> does nothing while the simulation runs. While it is paused, and with the
  world and the robot's group set up, \<open>step\<close> completes, the world and the bodies
  are those one call of the library's step function with \<open>deltaTime\<close> returns, and
  \<open>deltaTime\<close> is added to the simulation time; \<open>deltaTime\<close> itself, the run flag and
  the objects list stay.
\<close>

theorem step_only_when_paused:
  "(isRunning s \<longrightarrow> step L s = Inr s) \<and>
   (\<not> isRunning s \<longrightarrow> world s = Some w \<longrightarrow> base (robot s) = Some g \<longrightarrow>
      (\<exists>s' w'. step L s = Inr s' \<and> world s' = Some w' \<and>
         worldStep L (deltaTime s) (w, bodyStore s) = (w', bodyStore s') \<and>
         simulationTime s' = simulationTime s + deltaTime s \<and>
         deltaTime s' = deltaTime s \<and> \<not> isRunning s' \<and> objects s' = objects s))"
proof (intro conjI impI)
  assume "isRunning s"
  then show "step L s = Inr s" by (simp add: step_def)
next
  assume p: "\<not> isRunning s" and w: "world s = Some w" and g: "base (robot s) = Some g"
  obtain w' store' where ws: "worldStep L (deltaTime s) (w, bodyStore s) = (w', store')"
    by (cases "worldStep L (deltaTime s) (w, bodyStore s)")
  let ?s1 = "s\<lparr>world := Some w', bodyStore := store'\<rparr>"
  obtain m where s2: "fold copyTransform (objects s) ?s1 = ?s1\<lparr>meshStore := m\<rparr>"
    using fold_copyTransform_frame by blast
  from updatePhysics_result [OF w g, of L] obtain r st where
    "updatePhysics L s = Inr (?s1\<lparr>meshStore := m\<rparr>\<lparr>robot := r, stats := st\<rparr>)"
    unfolding stepWorld_eq [OF ws] s2 by blast
  then show "\<exists>s' w'. step L s = Inr s' \<and> world s' = Some w' \<and>
         worldStep L (deltaTime s) (w, bodyStore s) = (w', bodyStore s') \<and>
         simulationTime s' = simulationTime s + deltaTime s \<and>
         deltaTime s' = deltaTime s \<and> \<not> isRunning s' \<and> objects s' = objects s"
    using p ws by (simp add: step_def andThen_def)
qed

theorem step_only_when_paused_witness:
  "isRunning (play sampleTwo) \<and> step sampleLib (play sampleTwo) = Inr (play sampleTwo) \<and>
   \<not> isRunning sampleTwo \<and>
   world sampleTwo = Some \<lparr>World.gravity = Vec3 0 (- 9.8) 0, bodies = [6, 10, 12]\<rparr> \<and>
   base (robot sampleTwo) = Some \<lparr>rotationY = 0\<rparr> \<and>
   (\<exists>s'. step sampleLib sampleTwo = Inr s' \<and> simulationTime s' = 1 / 60 \<and>
      Body.position (bodyStore s' 10) = Vec3 (1 / 200) (21 / 2 + 1 / 150) 0)"
proof -
  have r: "isRunning (play sampleTwo)" by (simp add: play_def)
  have p: "\<not> isRunning sampleTwo" by (simp add: sampleTwo_flags)
  have g: "base (robot sampleTwo) = Some \<lparr>rotationY = 0\<rparr>" by (simp add: sampleTwo_flags)
  from step_only_when_paused [of "play sampleTwo" sampleLib] r
  have 1: "step sampleLib (play sampleTwo) = Inr (play sampleTwo)" by blast
  from step_only_when_paused [of sampleTwo sampleLib] p sampleTwo_world g
  obtain s' w' where s': "step sampleLib sampleTwo = Inr s'"
    and ws: "worldStep sampleLib (deltaTime sampleTwo)
      (\<lparr>World.gravity = Vec3 0 (- 9.8) 0, bodies = [6, 10, 12]\<rparr>, bodyStore sampleTwo) =
      (w', bodyStore s')"
    and t: "simulationTime s' = simulationTime sampleTwo + deltaTime sampleTwo"
    by blast
  from ws have "bodyStore s' = snd (worldStep sampleLib (1 / 60)
      (\<lparr>World.gravity = Vec3 0 (- 9.8) 0, bodies = [6, 10, 12]\<rparr>, bodyStore sampleTwo))"
    by (simp add: sampleTwo_flags)
  then have "Body.position (bodyStore s' 10) = Vec3 (1 / 200) (21 / 2 + 1 / 150) 0"
    by (simp add: sampleLib_def sampleTwo_bodies)
  with r 1 p sampleTwo_world g s' t show ?thesis
    by (simp add: sampleTwo_flags)
qed

subsection \<open>Clicking the canvas\<close>

text \<open>
  C10. While the simulation is paused, a click on the canvas returns at once and
  leaves the whole state as it is, for every library, event and pair of draws: no
  body receives an impulse, and the objects list and the statistics stay.
\<close>

theorem click_while_paused_changes_nothing:
  "\<not> isRunning s \<Longrightarrow> onCanvasClick L event rx rz s = Inr s"
  by (simp add: onCanvasClick_def)

theorem click_while_paused_changes_nothing_witness:
  "\<not> isRunning sampleTwo \<and>
   onCanvasClick sampleLib \<lparr>clientX = 400, clientY = 300, innerWidth = 800, innerHeight = 600\<rparr>
     (1 / 2) (1 / 2) sampleTwo = Inr sampleTwo"
proof -
  have p: "\<not> isRunning sampleTwo" by (simp add: sampleTwo_flags)
  from click_while_paused_changes_nothing [OF p] p show ?thesis by blast
qed

subsection \<open>Construction\<close>

text \<open>
  C6. When \<open>THREE\<close> or \<open>CANNON\<close> is missing, \<open>checkDependencies\<close> returns \<open>false\<close> after
  one console error and one alert. Whatever it returns, the constructor builds the
  same simulator as with both libraries present, and the effects of \<open>init\<close> (the
  timer of the set-up among them) follow those of the check.
\<close>

theorem missing_dependency_is_reported_and_ignored:
  "(\<not> hasTHREE g \<or> \<not> hasCANNON g \<longrightarrow>
      fst (checkDependencies g) = False \<and>
      (\<exists>m n. snd (checkDependencies g) = [ConsoleError m, Alert n])) \<and>
   constructor g bs ms as n = (newSimulator bs ms as n, snd (checkDependencies g) @ init) \<and>
   fst (constructor g bs ms as n) =
     fst (constructor \<lparr>hasTHREE = True, hasCANNON = True\<rparr> bs ms as n) \<and>
   SetTimeout 1000 \<in> set (snd (constructor g bs ms as n))"
  by (auto simp: checkDependencies_def constructor_def init_def Let_def)

theorem missing_dependency_is_reported_and_ignored_witness:
  "\<not> hasTHREE \<lparr>hasTHREE = False, hasCANNON = True\<rparr> \<and>
   fst (checkDependencies \<lparr>hasTHREE = False, hasCANNON = True\<rparr>) = False \<and>
   snd (constructor \<lparr>hasTHREE = False, hasCANNON = True\<rparr> (bodyStore sampleReady)
     (meshStore sampleReady) (arrowStore sampleReady) 10) =
     [ConsoleError 66, Alert 67, ConsoleLog 79, ShowLoadingScreen, SetTimeout 1000]"
  using missing_dependency_is_reported_and_ignored
    [of "\<lparr>hasTHREE = False, hasCANNON = True\<rparr>" "bodyStore sampleReady"
      "meshStore sampleReady" "arrowStore sampleReady" 10]
  by (simp add: checkDependencies_def init_def)

subsection \<open>The robot\<close>

lemma updateRobot_active_eq:
  assumes "isActive (robot s)" and "base (robot s) = Some g"
    and "ndiv (nmul (rotation (config s)) MathPI) (Finite 180) = T"
    and "nadd (Robot.currentAngle (robot s))
       (nmul (nsub T (Robot.currentAngle (robot s))) (Finite (toDouble 0.05))) = C"
  shows "updateRobot s =
     Inr (s\<lparr>robot := (robot s)\<lparr>targetAngle := T, Robot.currentAngle := C,
              base := Some (g\<lparr>rotationY := C\<rparr>)\<rparr>,
            stats := (stats s)\<lparr>Stats.currentAngle :=
              ToFixed (ndiv (nmul C (Finite 180)) MathPI) 1\<rparr>\<rparr>)"
  using assms(1,2) unfolding assms(3,4) [symmetric] updateRobot_def Let_def
  by (simp del: nadd.simps nmul.simps ndiv.simps)

lemma updateRobot_step:
  assumes act: "isActive (robot s)" and ba: "base (robot s) = Some g"
    and tg: "ndiv (nmul (rotation (config s)) MathPI) (Finite 180) = Finite t"
    and cu: "Robot.currentAngle (robot s) = Finite c" and fc: "finiteDouble c"
    and near: "\<bar>t - c\<bar> < 2 ^ 1023"
  shows "\<exists>s'. updateRobot s = Inr s' \<and> config s' = config s \<and> isActive (robot s') \<and>
     base (robot s') = Some (g\<lparr>rotationY := Finite (blend c t)\<rparr>) \<and>
     targetAngle (robot s') = Finite t \<and>
     Robot.currentAngle (robot s') = Finite (blend c t) \<and> finiteDouble (blend c t)"
proof -
  have ft: "finiteDouble t" by (rule target_finite [OF tg])
  note b = blend_computed [OF fc ft near]
  have "nadd (Robot.currentAngle (robot s))
       (nmul (nsub (Finite t) (Robot.currentAngle (robot s))) (Finite (toDouble 0.05))) =
     Finite (blend c t)"
    unfolding cu by (rule b(1))
  from updateRobot_active_eq [OF act ba tg this] b(2) act show ?thesis by simp
qed

lemma andThen_assoc: "andThen (andThen r f) h = andThen r (\<lambda>s. andThen (f s) h)"
  by (cases r) (simp_all add: andThen_def)

lemma updateRobotTimes_snoc:
  "updateRobotTimes (Suc n) s = andThen (updateRobotTimes n s) updateRobot"
proof (induction n arbitrary: s)
  case 0
  show ?case by (cases "updateRobot s") (simp_all add: andThen_def)
next
  case (Suc n)
  have e: "updateRobotTimes (Suc n) = (\<lambda>s1. andThen (updateRobotTimes n s1) updateRobot)"
    by (rule ext) (rule Suc.IH)
  have "updateRobotTimes (Suc (Suc n)) s = andThen (updateRobot s) (updateRobotTimes (Suc n))"
    by simp
  also have "\<dots> = andThen (updateRobot s) (\<lambda>s1. andThen (updateRobotTimes n s1) updateRobot)"
    by (simp only: e)
  also have "\<dots> = andThen (andThen (updateRobot s) (updateRobotTimes n)) updateRobot"
    by (simp only: andThen_assoc)
  finally show ?case by simp
qed

lemma updateRobotTimes_between:
  assumes act: "isActive (robot s)" and ba: "base (robot s) = Some g"
    and tg: "ndiv (nmul (rotation (config s)) MathPI) (Finite 180) = Finite t"
    and cu: "Robot.currentAngle (robot s) = Finite c" and fc: "finiteDouble c"
    and near: "\<bar>t - c\<bar> < 2 ^ 1023"
  shows "\<exists>sn gn cn. updateRobotTimes n s = Inr sn \<and> config sn = config s \<and>
     isActive (robot sn) \<and> base (robot sn) = Some gn \<and>
     Robot.currentAngle (robot sn) = Finite cn \<and> finiteDouble cn \<and>
     (c \<le> t \<longrightarrow> c \<le> cn \<and> cn \<le> t) \<and> (t \<le> c \<longrightarrow> t \<le> cn \<and> cn \<le> c)"
proof (induction n)
  case 0
  from act ba cu fc show ?case by simp
next
  case (Suc n)
  then obtain sn gn cn where
    n: "updateRobotTimes n s = Inr sn" "config sn = config s" "isActive (robot sn)"
      "base (robot sn) = Some gn" "Robot.currentAngle (robot sn) = Finite cn" "finiteDouble cn"
    and bn: "c \<le> t \<longrightarrow> c \<le> cn \<and> cn \<le> t" "t \<le> c \<longrightarrow> t \<le> cn \<and> cn \<le> c"
    by blast
  have tgn: "ndiv (nmul (rotation (config sn)) MathPI) (Finite 180) = Finite t"
    unfolding n(2) by (rule tg)
  have nearn: "\<bar>t - cn\<bar> < 2 ^ 1023" using bn near by linarith
  from updateRobot_step [OF n(3,4) tgn n(5,6) nearn] obtain s' where
    s: "updateRobot sn = Inr s'" "config s' = config sn" "isActive (robot s')"
      "base (robot s') = Some (gn\<lparr>rotationY := Finite (blend cn t)\<rparr>)"
      "Robot.currentAngle (robot s') = Finite (blend cn t)" "finiteDouble (blend cn t)"
    by blast
  have dn: "isDouble cn" and dt: "isDouble t"
    using n(6) target_finite [OF tg] by (simp_all only: finiteDouble_def)
  have "updateRobotTimes (Suc n) s = Inr s'"
    unfolding updateRobotTimes_snoc n(1) using s(1) by (simp add: andThen_def)
  moreover have "(c \<le> t \<longrightarrow> c \<le> blend cn t \<and> blend cn t \<le> t) \<and>
      (t \<le> c \<longrightarrow> t \<le> blend cn t \<and> blend cn t \<le> c)"
    using blend_between [OF dn dt] bn by linarith
  ultimately show ?case using s n(2) by auto
qed


text \<open>
  C3, as the code has it. Let the robot be active, its group exist, the target
  \<open>config.rotation * Math.PI / 180\<close> be a finite number \<open>t\<close>, and the current angle
  be a finite double \<open>c\<close> less than \<open>2 ^ 1023\<close> away from \<open>t\<close>. Then every further
  call of \<open>updateRobot\<close> completes, leaves the configuration and the target as they
  are, and turns the angle \<open>cn\<close> into \<open>cm = blend cn t\<close>, the value of
  \<open>cn + (t - cn) * 0.05\<close> in double arithmetic. The angles stay between \<open>c\<close> and \<open>t\<close>
  and move towards \<open>t\<close> or not at all: the difference to the target never grows in
  absolute value and never changes its sign, though it may become zero.
\<close>

theorem robot_angle_never_passes_target:
  assumes "isActive (robot s)" and "base (robot s) = Some g"
    and "ndiv (nmul (rotation (config s)) MathPI) (Finite 180) = Finite t"
    and "Robot.currentAngle (robot s) = Finite c" and "finiteDouble c"
    and "\<bar>t - c\<bar> < 2 ^ 1023"
  shows "\<exists>sn sm cn cm. updateRobotTimes n s = Inr sn \<and> updateRobot sn = Inr sm \<and>
     updateRobotTimes (Suc n) s = Inr sm \<and> config sm = config s \<and>
     targetAngle (robot sm) = Finite t \<and>
     Robot.currentAngle (robot sn) = Finite cn \<and> Robot.currentAngle (robot sm) = Finite cm \<and>
     cm = blend cn t \<and>
     (c \<le> t \<longrightarrow> c \<le> cn \<and> cn \<le> cm \<and> cm \<le> t) \<and>
     (t \<le> c \<longrightarrow> t \<le> cm \<and> cm \<le> cn \<and> cn \<le> c) \<and>
     \<bar>t - cm\<bar> \<le> \<bar>t - cn\<bar> \<and> (sgn (t - cm) = sgn (t - cn) \<or> cm = t)"
proof -
  from updateRobotTimes_between [OF assms, of n] obtain sn gn cn where
    n: "updateRobotTimes n s = Inr sn" "config sn = config s" "isActive (robot sn)"
      "base (robot sn) = Some gn" "Robot.currentAngle (robot sn) = Finite cn" "finiteDouble cn"
    and bn: "c \<le> t \<longrightarrow> c \<le> cn \<and> cn \<le> t" "t \<le> c \<longrightarrow> t \<le> cn \<and> cn \<le> c"
    by blast
  have tgn: "ndiv (nmul (rotation (config sn)) MathPI) (Finite 180) = Finite t"
    unfolding n(2) by (rule assms(3))
  have nearn: "\<bar>t - cn\<bar> < 2 ^ 1023" using bn assms(6) by linarith
  from updateRobot_step [OF n(3,4) tgn n(5,6) nearn] obtain sm where
    m: "updateRobot sn = Inr sm" "config sm = config sn" "targetAngle (robot sm) = Finite t"
      "Robot.currentAngle (robot sm) = Finite (blend cn t)"
    by blast
  have dn: "isDouble cn" and dt: "isDouble t"
    using n(6) target_finite [OF assms(3)] by (simp_all only: finiteDouble_def)
  note b = blend_between [OF dn dt]
  have 1: "updateRobotTimes (Suc n) s = Inr sm"
    unfolding updateRobotTimes_snoc n(1) using m(1) by (simp add: andThen_def)
  have 2: "(c \<le> t \<longrightarrow> c \<le> cn \<and> cn \<le> blend cn t \<and> blend cn t \<le> t) \<and>
     (t \<le> c \<longrightarrow> t \<le> blend cn t \<and> blend cn t \<le> cn \<and> cn \<le> c)"
    using b bn by linarith
  have 3: "\<bar>t - blend cn t\<bar> \<le> \<bar>t - cn\<bar>" using b by linarith
  have 4: "sgn (t - blend cn t) = sgn (t - cn) \<or> blend cn t = t"
    using b by (cases "cn \<le> t") (auto simp: sgn_if)
  from n(1,5) m 1 2 3 4 show ?thesis unfolding n(2) by blast
qed

lemma sampleTarget_bounds:
  "ndiv (nmul (Finite 45) MathPI) (Finite 180) = Finite sampleTarget"
  "0 \<le> sampleTarget" "sampleTarget \<le> 1"
proof -
  let ?p = "toDouble (45 * toDouble pi)"
  have p: "90 \<le> ?p \<and> ?p \<le> 180"
    using toDouble_between [of 90 "45 * toDouble pi" 180] MathPI_bounds by simp
  then have "\<bar>?p\<bar> < 2 ^ 1024" by simp
  then have 1: "fl (45 * toDouble pi) = Finite ?p" by (rule fl_Finite)
  have t: "0 \<le> sampleTarget \<and> sampleTarget \<le> 1"
    unfolding sampleTarget_def using toDouble_between [of 0 "?p / 180" 1] p by simp
  then have "\<bar>toDouble (?p / 180)\<bar> < 2 ^ 1024" unfolding sampleTarget_def by simp
  then have 2: "fl (?p / 180) = Finite sampleTarget"
    unfolding sampleTarget_def by (rule fl_Finite)
  show "ndiv (nmul (Finite 45) MathPI) (Finite 180) = Finite sampleTarget"
    unfolding MathPI_def by (simp only: nmul.simps 1 ndiv.simps 2) simp
  from t show "0 \<le> sampleTarget" "sampleTarget \<le> 1" by simp_all
qed

lemma sampleActive:
  "isActive (robot (toggleRobot sampleReady))"
  "base (robot (toggleRobot sampleReady)) = Some \<lparr>rotationY = 0\<rparr>"
  "rotation (config (toggleRobot sampleReady)) = Finite 45"
  "Robot.currentAngle (robot (toggleRobot sampleReady)) = Finite 0"
  by (simp_all add: toggleRobot_def sampleReady_def newSimulator_def zero_number_def)

theorem robot_angle_never_passes_target_witness:
  "isActive (robot (toggleRobot sampleReady)) \<and>
   base (robot (toggleRobot sampleReady)) = Some \<lparr>rotationY = 0\<rparr> \<and>
   ndiv (nmul (rotation (config (toggleRobot sampleReady))) MathPI) (Finite 180) =
     Finite sampleTarget \<and>
   Robot.currentAngle (robot (toggleRobot sampleReady)) = Finite 0 \<and> finiteDouble 0 \<and>
   \<bar>sampleTarget - 0\<bar> < 2 ^ 1023 \<and>
   (\<exists>sn sm cn cm. updateRobotTimes 1 (toggleRobot sampleReady) = Inr sn \<and>
      updateRobot sn = Inr sm \<and>
      Robot.currentAngle (robot sn) = Finite cn \<and> Robot.currentAngle (robot sm) = Finite cm \<and>
      cm = blend cn sampleTarget \<and> 0 \<le> cn \<and> cn \<le> cm \<and> cm \<le> sampleTarget)"
proof -
  have tg: "ndiv (nmul (rotation (config (toggleRobot sampleReady))) MathPI) (Finite 180) =
     Finite sampleTarget"
    unfolding sampleActive(3) by (rule sampleTarget_bounds(1))
  have near: "\<bar>sampleTarget - 0\<bar> < 2 ^ 1023"
  proof -
    have "(1::real) < 2 ^ 1023" by (rule one_less_power) simp_all
    with sampleTarget_bounds(2,3) show ?thesis by simp
  qed
  from robot_angle_never_passes_target
    [OF sampleActive(1,2) tg sampleActive(4) finiteDouble_0 near, of 1]
  obtain sn sm cn cm where
    "updateRobotTimes 1 (toggleRobot sampleReady) = Inr sn" "updateRobot sn = Inr sm"
    "Robot.currentAngle (robot sn) = Finite cn" "Robot.currentAngle (robot sm) = Finite cm"
    "cm = blend cn sampleTarget"
    "0 \<le> sampleTarget \<longrightarrow> 0 \<le> cn \<and> cn \<le> cm \<and> cm \<le> sampleTarget"
    by blast
  with sampleTarget_bounds(2) sampleActive(1,2,4) tg finiteDouble_0 near show ?thesis
    by blast
qed


lemma stalled_angle:
  "finiteDouble (9 * 2 powi (- 1074))" "blend (9 * 2 powi (- 1074)) 0 = 9 * 2 powi (- 1074)"
proof -
  let ?c = "9 * 2 powi (- 1074) :: real"
  have "isDouble (of_int 9 * 2 powi (- 1074))" by (rule isDouble_dyadic) simp_all
  then have dc: "isDouble ?c" by simp
  have "(2::real) powi (- 1074) \<le> 2 powi (- 4)" by (rule power_int_increasing) simp_all
  then have c1: "?c \<le> 1" by (simp add: power_int_minus)
  have "(1::real) < 2 ^ 1024" by (rule one_less_power) simp_all
  with c1 have "\<bar>?c\<bar> < 2 ^ 1024" by simp
  with dc show "finiteDouble ?c" by (simp only: finiteDouble_def)
  have "isDouble (of_int 13 * 2 powi (- 8))" by (rule isDouble_dyadic) simp_all
  then have "isDouble (13 / 256)" by (simp add: power_int_minus)
  from toDouble_le_double [OF this, of "0.05"] have k2: "toDouble 0.05 \<le> 13 / 256" by simp
  have k1: "0 \<le> toDouble 0.05" using factor_small by simp
  have "?c * toDouble 0.05 \<le> ?c * (13 / 256)" using k2 by (intro mult_left_mono) simp_all
  also have "\<dots> = 117 / 256 * 2 powi (- 1074)" by simp
  also have "\<dots> < 1 / 2 * 2 powi (- 1074)" by (intro mult_strict_right_mono) simp_all
  also have "\<dots> = 2 powi (- 1075)" by (simp add: power_int_minus)
  finally have "?c * toDouble 0.05 < 2 powi (- 1075)" .
  moreover have "0 \<le> ?c * toDouble 0.05" using k1 by simp
  ultimately have z: "toDouble (?c * toDouble 0.05) = 0" by (intro toDouble_tiny)
  have "toDouble (0 - ?c) = - ?c"
    using dc by (simp add: toDouble_minus isDouble_def)
  then have "toDouble (toDouble (0 - ?c) * toDouble 0.05) = toDouble (- (?c * toDouble 0.05))"
    by (simp only: mult_minus_left)
  also have "\<dots> = 0" unfolding toDouble_minus z by simp
  finally have "blend ?c 0 = toDouble (?c + 0)" unfolding blend_def by (rule arg_cong)
  then show "blend ?c 0 = ?c" using dc by (simp add: isDouble_def)
qed

lemma sampleStalled_fields:
  "isActive (robot sampleStalled)"
  "base (robot sampleStalled) = Some \<lparr>rotationY = 0\<rparr>"
  "rotation (config sampleStalled) = Finite 0"
  "Robot.currentAngle (robot sampleStalled) = Finite (9 * 2 powi (- 1074))"
  by (simp_all add: sampleStalled_def toggleRobot_def sampleReady_def newSimulator_def)

text \<open>
  C3 as stated fails: a step does not always move the angle by \<open>0.05\<close> times the
  remaining difference, and the angle need not come any closer to the target. With
  the rotation slider at \<open>0\<close> and the angle at nine times the smallest positive double,
  the product of the difference and \<open>0.05\<close> rounds to zero, and \<open>updateRobot\<close> leaves the
  angle where it is, short of the target. (From the constructor's values, rotation
  \<open>45\<close> and angle \<open>0\<close>, the same happens after 664 calls, about \<open>1.1e-15\<close> before the
  target.)
\<close>

theorem stalled_angle_counterexample:
  "isActive (robot sampleStalled) \<and> rotation (config sampleStalled) = Finite 0 \<and>
   Robot.currentAngle (robot sampleStalled) = Finite (9 * 2 powi (- 1074)) \<and>
   \<not> isl (updateRobot sampleStalled) \<and>
   targetAngle (robot (projr (updateRobot sampleStalled))) = Finite 0 \<and>
   Robot.currentAngle (robot (projr (updateRobot sampleStalled))) = Finite (9 * 2 powi (- 1074)) \<and>
   (0 - 9 * 2 powi (- 1074)) * 0.05 \<noteq> (0::real)"
proof -
  have tg: "ndiv (nmul (rotation (config sampleStalled)) MathPI) (Finite 180) = Finite 0"
    unfolding sampleStalled_fields MathPI_def by (simp add: fl_0)
  have "(2::real) powi (- 1074) \<le> 2 powi (- 4)" by (rule power_int_increasing) simp_all
  then have "\<bar>0 - 9 * 2 powi (- 1074)\<bar> \<le> (1::real)" by (simp add: power_int_minus)
  moreover have "(1::real) < 2 ^ 1023" by (rule one_less_power) simp_all
  ultimately have near: "\<bar>0 - 9 * 2 powi (- 1074)\<bar> < (2::real) ^ 1023" by linarith
  have "nadd (Robot.currentAngle (robot sampleStalled))
       (nmul (nsub (Finite 0) (Robot.currentAngle (robot sampleStalled)))
         (Finite (toDouble 0.05))) = Finite (9 * 2 powi (- 1074))"
    unfolding sampleStalled_fields
    using blend_computed(1) [OF stalled_angle(1) finiteDouble_0 near]
    unfolding stalled_angle(2) .
  from updateRobot_active_eq [OF sampleStalled_fields(1,2) tg this] sampleStalled_fields
  show ?thesis by simp
qed

text \<open>
  Outside the finite range the angle does not approach anything: an emptied rotation
  box makes the target and the angle NaN, and a rotation whose product with \<open>Math.PI\<close>
  overflows makes both infinite.
\<close>

lemma rotation_NaN:
  assumes "isActive (robot s)" and "base (robot s) = Some g" and "rotation (config s) = NaN"
  shows "\<exists>s'. updateRobot s = Inr s' \<and> targetAngle (robot s') = NaN \<and>
     Robot.currentAngle (robot s') = NaN"
proof -
  have tg: "ndiv (nmul (rotation (config s)) MathPI) (Finite 180) = NaN"
    by (simp add: assms(3) MathPI_def)
  have "nadd (Robot.currentAngle (robot s))
       (nmul (nsub NaN (Robot.currentAngle (robot s))) (Finite (toDouble 0.05))) = NaN"
    by (cases "Robot.currentAngle (robot s)") (simp_all add: nsub_def)
  from updateRobot_active_eq [OF assms(1,2) tg this] show ?thesis by simp
qed

lemma rotation_overflow:
  assumes "isActive (robot s)" and "base (robot s) = Some g"
    and "rotation (config s) = Finite (2 ^ 1023)"
    and "Robot.currentAngle (robot s) = Finite c"
  shows "\<exists>s'. updateRobot s = Inr s' \<and> targetAngle (robot s') = PosInf \<and>
     Robot.currentAngle (robot s') = PosInf"
proof -
  have "isDouble (2 powi 1024)" by (rule isDouble_power_of_two) simp
  then have d: "isDouble (2 ^ 1024)" by (simp add: power_int_def del: power_numeral)
  have "(2::real) ^ 1024 = 2 ^ 1023 * 2" by simp
  also have "\<dots> \<le> 2 ^ 1023 * toDouble pi"
    using MathPI_bounds by (intro mult_left_mono) simp_all
  finally have "2 ^ 1024 \<le> toDouble (2 ^ 1023 * toDouble pi)"
    by (rule toDouble_ge_double [OF d])
  then have "fl (2 ^ 1023 * toDouble pi) = PosInf" by (simp only: fl_def if_True)
  then have tg: "ndiv (nmul (rotation (config s)) MathPI) (Finite 180) = PosInf"
    unfolding assms(3) MathPI_def by (simp only: nmul.simps) simp
  have "isDouble (2 powi (- 5))" by (rule isDouble_power_of_two) simp
  then have "isDouble (1 / 32)" by (simp add: power_int_minus)
  from toDouble_ge_double [OF this, of "0.05"] have k: "0 < toDouble 0.05" by simp
  have "nadd (Robot.currentAngle (robot s))
       (nmul (nsub PosInf (Robot.currentAngle (robot s))) (Finite (toDouble 0.05))) = PosInf"
    unfolding assms(4) nsub_def using k by (simp del: power_numeral)
  from updateRobot_active_eq [OF assms(1,2) tg this] show ?thesis by simp
qed

subsection \<open>Spawning objects\<close>

lemma addObject_ready:
  assumes "materialised L" and "scene s = Some ch" and "world s = Some w"
  shows "\<exists>s'. addObject L shape geom ty hue px py pz ix iz s = Inr s' \<and>
     objects s' = objects s @ [\<lparr>body = nextRef s, mesh = Suc (nextRef s), type = ty,
       mass = Config.mass (config s)\<rparr>] \<and>
     scene s' = Some (ch @ [Suc (nextRef s)]) \<and>
     world s' = Some (w\<lparr>bodies := bodies w @ [nextRef s]\<rparr>) \<and>
     nextRef s' = Suc (Suc (nextRef s)) \<and> config s' = config s \<and>
     stats s' = (stats s)\<lparr>activeObjects := Suc (activeObjects (stats s))\<rparr>"
proof -
  obtain m where "material (addShape L shape (newBody L (Config.mass (config s)))) = Some m"
    using assms(1) unfolding materialised_def by blast
  then show ?thesis
    using assms(2,3) by (simp add: addObject_def Let_def)
qed

lemma spawnOne_ready:
  assumes "materialised L" and "scene s = Some ch" and "world s = Some w"
  shows "\<exists>s'. spawnOne L c s = Inr s' \<and>
     objects s' = objects s @ [\<lparr>body = nextRef s, mesh = Suc (nextRef s), type = tagOf c,
       mass = Config.mass (config s)\<rparr>] \<and>
     scene s' = Some (ch @ [Suc (nextRef s)]) \<and>
     world s' = Some (w\<lparr>bodies := bodies w @ [nextRef s]\<rparr>) \<and>
     nextRef s' = Suc (Suc (nextRef s)) \<and> config s' = config s \<and>
     stats s' = (stats s)\<lparr>activeObjects := Suc (activeObjects (stats s))\<rparr>"
  by (cases c) (simp_all add: addBox_def addSphere_def addCylinder_def Let_def
      addObject_ready [OF assms])

lemma paired_step:
  assumes p: "paired lo s" and lo: "lo \<le> nextRef s"
    and sc: "scene s = Some ch" and wo: "world s = Some w"
    and o: "objects s' = objects s @ [\<lparr>body = nextRef s, mesh = Suc (nextRef s), type = ty, mass = m\<rparr>]"
    and sc': "scene s' = Some (ch @ [Suc (nextRef s)])"
    and wo': "world s' = Some (w\<lparr>bodies := bodies w @ [nextRef s]\<rparr>)"
    and n: "nextRef s' = Suc (Suc (nextRef s))"
  shows "paired lo s'"
proof -
  have old: "\<forall>obj\<in>set (objects s). body obj < nextRef s \<and> mesh obj < nextRef s \<and>
       mesh obj = Suc (body obj) \<and> lo \<le> body obj \<and> body obj \<in> set (bodies w) \<and> mesh obj \<in> set ch"
    using p sc wo unfolding paired_def by auto
  then have "nextRef s \<notin> body ` set (objects s)" "Suc (nextRef s) \<notin> mesh ` set (objects s)"
    by auto
  then have "distinct (map body (objects s'))" "distinct (map mesh (objects s'))"
    using p unfolding paired_def o by auto
  moreover have "\<forall>obj\<in>set (objects s').
        lo \<le> body obj \<and> mesh obj = Suc (body obj) \<and> mesh obj < nextRef s' \<and>
        (\<exists>w. world s' = Some w \<and> body obj \<in> set (bodies w)) \<and>
        (\<exists>children. scene s' = Some children \<and> mesh obj \<in> set children)"
    using old lo unfolding o sc' wo' n by auto
  ultimately show ?thesis unfolding paired_def by blast
qed

lemma spawnAll_invariant:
  assumes "materialised L" and "scene s = Some ch" and "world s = Some w"
    and "paired lo s" and "lo \<le> nextRef s"
  shows "paired lo (spawnAll L cs s) \<and>
     map SimObject.type (objects (spawnAll L cs s)) = map SimObject.type (objects s) @ map tagOf cs \<and>
     map SimObject.mass (objects (spawnAll L cs s)) =
       map SimObject.mass (objects s) @ replicate (length cs) (Config.mass (config s)) \<and>
     activeObjects (stats (spawnAll L cs s)) = activeObjects (stats s) + length cs"
  using assms(2-)
proof (induction cs arbitrary: s ch w)
  case Nil
  then show ?case by simp
next
  case (Cons c cs)
  from spawnOne_ready [OF assms(1) Cons.prems(1,2), of c] obtain s1 where
    1: "spawnOne L c s = Inr s1"
    and o: "objects s1 = objects s @ [\<lparr>body = nextRef s, mesh = Suc (nextRef s), type = tagOf c,
       mass = Config.mass (config s)\<rparr>]"
    and sc: "scene s1 = Some (ch @ [Suc (nextRef s)])"
    and wo: "world s1 = Some (w\<lparr>bodies := bodies w @ [nextRef s]\<rparr>)"
    and n: "nextRef s1 = Suc (Suc (nextRef s))" and c: "config s1 = config s"
    and st: "stats s1 = (stats s)\<lparr>activeObjects := Suc (activeObjects (stats s))\<rparr>"
    by blast
  have p1: "paired lo s1"
    by (rule paired_step [OF Cons.prems(3,4,1,2) o sc wo n])
  have lo1: "lo \<le> nextRef s1" using Cons.prems(4) n by simp
  note ih = Cons.IH [OF sc wo p1 lo1]
  have sp: "spawnAll L (c # cs) s = spawnAll L cs s1" using 1 by simp
  show ?case unfolding sp using ih by (simp add: o c st)
qed

lemma addObject_without_material:
  assumes "material (addShape L shape (newBody L (Config.mass (config s)))) = None"
  shows "addObject L shape geom ty hue px py pz ix iz s = Inl (TypeError, s)"
  using assms by (simp add: addObject_def Let_def)

text \<open>
  C4 fails on the code. With a library that leaves the material of a fresh body
  \<open>null\<close>, as Cannon.js does, every click on a spawn button ends in a TypeError at
  \<open>body.material.friction = ...\<close> (lines 356, 396 and 437), before the body is added
  to the world and before anything is pushed: the state is as it was. So after any
  sequence of clicks the objects list and \<open>stats.activeObjects\<close> are what they were,
  whatever the state and the draws.
\<close>

theorem spawn_throws_before_anything_is_pushed:
  assumes "withoutMaterial L"
  shows "spawnOne L c s = Inl (TypeError, s) \<and> spawnAll L cs s = s"
proof
  have m: "material (addShape L sh (newBody L (Config.mass (config s')))) = None" for sh s'
    using assms by (simp add: withoutMaterial_def)
  show one: "spawnOne L c s' = Inl (TypeError, s')" for c s'
    by (cases c)
      (simp_all add: addBox_def addSphere_def addCylinder_def Let_def
        addObject_without_material [OF m])
  show "spawnAll L cs s = s"
    by (induction cs) (simp_all add: one)
qed

lemma sampleReady_fields:
  "scene sampleReady = Some [0, 1, 2, 3, 4, 5]"
  "world sampleReady = Some \<lparr>World.gravity = Vec3 0 (- 9.8) 0, bodies = [6]\<rparr>"
  "objects sampleReady = []" "nextRef sampleReady = 10"
  "activeObjects (stats sampleReady) = 0"
  by (simp_all add: sampleReady_def newSimulator_def zeroStats_def)

theorem spawn_throws_before_anything_is_pushed_witness:
  "withoutMaterial cannonLib \<and>
   spawnOne cannonLib (AddBox (1/2) (1/2) (1/2) (1/2) (1/2) (4/5) (1/2)) sampleReady =
     Inl (TypeError, sampleReady) \<and>
   objects (spawnAll cannonLib
     [AddBox (1/2) (1/2) (1/2) (1/2) (1/2) (4/5) (1/2),
      AddSphere (1/2) (1/2) (1/2) (1/2) (1/2) (1/2) (4/5)] sampleReady) = [] \<and>
   activeObjects (stats (spawnAll cannonLib
     [AddBox (1/2) (1/2) (1/2) (1/2) (1/2) (4/5) (1/2),
      AddSphere (1/2) (1/2) (1/2) (1/2) (1/2) (1/2) (4/5)] sampleReady)) = 0"
proof -
  have w: "withoutMaterial cannonLib"
    by (simp add: withoutMaterial_def cannonLib_def sampleLib_def)
  from spawn_throws_before_anything_is_pushed [OF w,
      of "AddBox (1/2) (1/2) (1/2) (1/2) (1/2) (4/5) (1/2)" sampleReady
        "[AddBox (1/2) (1/2) (1/2) (1/2) (1/2) (4/5) (1/2),
          AddSphere (1/2) (1/2) (1/2) (1/2) (1/2) (1/2) (4/5)]"]
  have a: "spawnOne cannonLib (AddBox (1/2) (1/2) (1/2) (1/2) (1/2) (4/5) (1/2)) sampleReady =
      Inl (TypeError, sampleReady)"
    and b: "spawnAll cannonLib
      [AddBox (1/2) (1/2) (1/2) (1/2) (1/2) (4/5) (1/2),
       AddSphere (1/2) (1/2) (1/2) (1/2) (1/2) (1/2) (4/5)] sampleReady = sampleReady"
    by blast+
  show ?thesis
    unfolding b using w a sampleReady_fields(3,5) by blast
qed

text \<open>
  The handlers add what they are written to add once the body has a material. With a
  library that gives a fresh body a material object, and a scene and a world set up,
  any sequence of \<open>N\<close> clicks on the three spawn buttons from an empty objects list
  leaves exactly \<open>N\<close> entries. Each holds the handle of the body and the handle of the mesh that its
  spawn allocated, the body in the world and the mesh in the scene, no handle shared
  between entries; the type tags are those of the buttons in order, every mass is the
  configured mass, and \<open>stats.activeObjects\<close> has grown by \<open>N\<close>.
\<close>

lemma spawning_with_a_material:
  assumes "materialised L" and "scene s = Some ch" and "world s = Some w"
    and "objects s = []"
  shows "length (objects (spawnAll L cs s)) = length cs \<and>
     paired (nextRef s) (spawnAll L cs s) \<and>
     map SimObject.type (objects (spawnAll L cs s)) = map tagOf cs \<and>
     map SimObject.mass (objects (spawnAll L cs s)) = replicate (length cs) (Config.mass (config s)) \<and>
     activeObjects (stats (spawnAll L cs s)) = activeObjects (stats s) + length cs"
proof -
  have "paired (nextRef s) s" using assms(4) by (simp add: paired_def)
  from spawnAll_invariant [OF assms(1-3) this, of cs]
  have inv: "paired (nextRef s) (spawnAll L cs s)"
    "map SimObject.type (objects (spawnAll L cs s)) = map tagOf cs"
    "map SimObject.mass (objects (spawnAll L cs s)) = replicate (length cs) (Config.mass (config s))"
    "activeObjects (stats (spawnAll L cs s)) = activeObjects (stats s) + length cs"
    using assms(4) by simp_all
  from inv(2) have "length (objects (spawnAll L cs s)) = length cs"
    by (metis length_map)
  with inv show ?thesis by blast
qed

lemma sampleLib_materialised: "materialised sampleLib"
  by (simp add: materialised_def sampleLib_def)

lemma sampleTwo_paired:
  "length (objects sampleTwo) = 2 \<and> paired 10 sampleTwo \<and>
   map SimObject.type (objects sampleTwo) = [''box'', ''sphere''] \<and>
   activeObjects (stats sampleTwo) = 2"
  using spawning_with_a_material [OF sampleLib_materialised sampleReady_fields(1,2,3),
      of "[AddBox (1/2) (1/2) (1/2) (1/2) (1/2) (4/5) (1/2),
           AddSphere (1/2) (1/2) (1/2) (1/2) (1/2) (1/2) (4/5)]"]
    sampleReady_fields
  unfolding sampleTwo_def [symmetric] by simp

subsection \<open>Vector arrows\<close>
















subsection \<open>The frame callback\<close>











subsection \<open>The optimisation buttons\<close>

lemma rounded_percentage_range:
  assumes "0 \<le> r" and "r < 1"
  shows "70 \<le> \<lfloor>toDouble (toDouble (r * 30) + 70)\<rfloor> \<and> \<lfloor>toDouble (toDouble (r * 30) + 70)\<rfloor> \<le> 100"
proof -
  have "of_int 0 \<le> r * 30" "r * 30 \<le> of_int 30" "\<bar>r * 30\<bar> < 2 ^ 53"
    using assms by simp_all
  from toDouble_between [OF this] have a: "0 \<le> toDouble (r * 30)" "toDouble (r * 30) \<le> 30"
    by simp_all
  then have "of_int 70 \<le> toDouble (r * 30) + 70" "toDouble (r * 30) + 70 \<le> of_int 100"
    "\<bar>toDouble (r * 30) + 70\<bar> < 2 ^ 53"
    by simp_all
  from toDouble_between [OF this]
  have "70 \<le> toDouble (toDouble (r * 30) + 70)" "toDouble (toDouble (r * 30) + 70) \<le> 100"
    by simp_all
  then show ?thesis
    by (simp add: le_floor_iff floor_le_iff)
qed

lemma exact_percentage_range:
  assumes "0 \<le> r" and "r < 1"
  shows "70 \<le> \<lfloor>r * 30 + 70\<rfloor> \<and> \<lfloor>r * 30 + 70\<rfloor> \<le> 99"
proof -
  have "r * 30 + 70 < 100" using assms by simp
  then have "\<lfloor>r * 30 + 70\<rfloor> < 100" by (simp add: floor_less_iff)
  moreover have "70 \<le> \<lfloor>r * 30 + 70\<rfloor>" using assms by (simp add: le_floor_iff)
  ultimately show ?thesis by simp
qed

lemma roundEven_up: "1 / 2 < f \<Longrightarrow> f < 1 \<Longrightarrow> roundEven (of_int n + f) = n + 1"
proof -
  assume f: "1 / 2 < f" "f < 1"
  then have "\<lfloor>of_int n + f\<rfloor> = n" by (intro floor_unique) simp_all
  then show ?thesis using f by (simp add: roundEven_def)
qed

lemma powi_neg_numeral: "(2::real) powi (- int n) = 1 / 2 ^ n"
  by (simp add: power_int_minus field_simps)

lemma product_rounded: "toDouble ((1 - 1 / 2 ^ 53) * 30) = 30 - 1 / 2 ^ 48"
proof -
  let ?x = "(1 - 1 / 2 ^ 53) * 30 :: real"
  have "quantum ?x = 4 - 52"
    by (rule quantum_eq) (simp_all add: power_int_def)
  then have q: "quantum ?x = - int 48" by simp
  have "?x / 2 powi (- int 48) = of_int (30 * 2 ^ 48 - 1) + 1 / 16"
    unfolding powi_neg_numeral by simp
  then have "roundEven (?x / 2 powi (- int 48)) = 30 * 2 ^ 48 - 1"
    by (simp only: roundEven_down)
  then show ?thesis
    unfolding toDouble_def q unfolding powi_neg_numeral by simp
qed

lemma sum_rounded: "toDouble (30 - 1 / 2 ^ 48 + 70) = 100"
proof -
  let ?y = "30 - 1 / 2 ^ 48 + 70 :: real"
  have "quantum ?y = 6 - 52"
    by (rule quantum_eq) (simp_all add: power_int_def)
  then have q: "quantum ?y = - int 46" by simp
  have "?y / 2 powi (- int 46) = of_int (100 * 2 ^ 46 - 1) + 3 / 4"
    unfolding powi_neg_numeral by simp
  then have "roundEven (?y / 2 powi (- int 46)) = 100 * 2 ^ 46 - 1 + 1"
    by (simp only: roundEven_up)
  then show ?thesis
    unfolding toDouble_def q unfolding powi_neg_numeral by simp
qed

lemma largest_below_one_is_a_double: "toDouble (1 - 1 / 2 ^ 53) = 1 - 1 / 2 ^ 53"
proof -
  let ?x = "1 - 1 / 2 ^ 53 :: real"
  have "quantum ?x = - 1 - 52"
    by (rule quantum_eq) (simp_all add: power_int_def)
  then have q: "quantum ?x = - int 53" by simp
  have "?x / 2 powi (- int 53) = of_int (2 ^ 53 - 1) + 0"
    unfolding powi_neg_numeral by simp
  then have "roundEven (?x / 2 powi (- int 53)) = 2 ^ 53 - 1"
    by (simp only: roundEven_down)
  then show ?thesis
    unfolding toDouble_def q unfolding powi_neg_numeral by simp
qed

text \<open>
  C1, as the code has it. For every draw \<open>r\<close> in \<open>[0, 1)\<close>, \<open>optimizeLayout\<close> changes
  nothing but \<open>stats.damageReduction\<close>, and \<open>optimizeTrajectory\<close> nothing but
  \<open>stats.trajectoryEfficiency\<close>: the new value is \<open>Math.floor(r * 30 + 70)\<close> as doubles
  compute it, an integer from \<open>70\<close> to \<open>100\<close>, and it is read from no object, body or
  robot field. In exact arithmetic the value would be at most \<open>99\<close>.
\<close>

theorem optimize_assigns_only_a_percentage:
  assumes "0 \<le> r" and "r < 1"
  shows "(\<exists>d. 70 \<le> d \<and> d \<le> 100 \<and> d = \<lfloor>toDouble (toDouble (r * 30) + 70)\<rfloor> \<and>
        optimizeLayout r s = s\<lparr>stats := (stats s)\<lparr>damageReduction := d\<rparr>\<rparr> \<and>
        optimizeTrajectory r s = s\<lparr>stats := (stats s)\<lparr>trajectoryEfficiency := d\<rparr>\<rparr>) \<and>
     \<lfloor>r * 30 + 70\<rfloor> \<le> 99"
  using rounded_percentage_range [OF assms] exact_percentage_range [OF assms]
  by (simp add: optimizeLayout_def optimizeTrajectory_def)

theorem optimize_assigns_only_a_percentage_witness:
  "(0::real) \<le> 1 / 2 \<and> (1 / 2 :: real) < 1 \<and>
   optimizeLayout (1 / 2) sampleReady =
     sampleReady\<lparr>stats := (stats sampleReady)\<lparr>damageReduction := 85\<rparr>\<rparr> \<and>
   optimizeTrajectory (1 / 2) sampleReady =
     sampleReady\<lparr>stats := (stats sampleReady)\<lparr>trajectoryEfficiency := 85\<rparr>\<rparr>"
proof -
  have "toDouble (of_int 15) = of_int 15" "toDouble (of_int 85) = of_int 85"
    by (rule toDouble_int, simp)+
  then have "\<lfloor>toDouble (toDouble (1 / 2 * 30) + 70)\<rfloor> = 85" by simp
  with optimize_assigns_only_a_percentage [of "1 / 2" sampleReady] show ?thesis
    by auto
qed

text \<open>
  C1 as stated fails at the largest double below one, which \<open>Math.random()\<close> may
  return (it promises a number of \<open>[0, 1)\<close>): \<open>r * 30\<close> rounds to \<open>30 - 2 ^ -48\<close> and the
  sum to \<open>100\<close>, so both buttons assign \<open>100\<close>, which is not between \<open>70\<close> and \<open>99\<close>.
\<close>

theorem percentage_upper_bound_counterexample:
  "(0::real) \<le> 1 - 1 / 2 ^ 53 \<and> (1 - 1 / 2 ^ 53 :: real) < 1 \<and>
   isDouble (1 - 1 / 2 ^ 53) \<and>
   damageReduction (stats (optimizeLayout (1 - 1 / 2 ^ 53) sampleReady)) = 100 \<and>
   trajectoryEfficiency (stats (optimizeTrajectory (1 - 1 / 2 ^ 53) sampleReady)) = 100"
proof -
  have "\<lfloor>toDouble (toDouble ((1 - 1 / 2 ^ 53) * 30) + 70)\<rfloor> = 100"
    unfolding product_rounded sum_rounded by simp
  then have "damageReduction (stats (optimizeLayout (1 - 1 / 2 ^ 53) sampleReady)) = 100"
    "trajectoryEfficiency (stats (optimizeTrajectory (1 - 1 / 2 ^ 53) sampleReady)) = 100"
    unfolding optimizeLayout_def optimizeTrajectory_def by simp_all
  moreover have "(0::real) \<le> 1 - 1 / 2 ^ 53" "(1 - 1 / 2 ^ 53 :: real) < 1" by simp_all
  ultimately show ?thesis
    using largest_below_one_is_a_double unfolding isDouble_def by blast
qed

end
